theory Spec2Isabelle
  imports Complex_Main
begin

section \<open>Numbers, vectors and options\<close>

text \<open>
  The program computes on JavaScript numbers. They are modelled as the real numbers:
  rounding, infinities and NaN are not part of the model, so every statement below is
  about the arithmetic the code writes down, not about its last bits. Division is the
  division of the reals, which HOL extends by \<open>x / 0 = 0\<close>; the source divides by \<^verbatim>\<open>size\<close>
  only after it has returned for \<open>size \<le> 0\<close>, and by a taper only for a running length
  below that taper. A point or a vector is the pair of its two coordinates.
\<close>

type_synonym vec = "real \<times> real"

text \<open>
  Modelled from the spec: the module \<^verbatim>\<open>./vec\<close> (add, sub, mul, neg, uni, per, dpr, lrp,
  dist, dist2, isEqual, prj, rotAround) is imported by both transforms but is not among
  the source files. Each operation follows the words of section 4.1: \<open>per\<close> is
  \<open>(v.y, -v.x)\<close>, \<open>lrp a b t\<close> is \<open>a + (b - a) * t\<close>, \<open>prj\<close> moves a point along a
  direction by a signed distance, \<open>rotAround\<close> is the standard rotation about a pivot,
  and \<open>uni\<close> returns \<open>(0, 0)\<close> for a vector of length zero. All of them return pairs.
\<close>

definition add :: "vec \<Rightarrow> vec \<Rightarrow> vec" where
  "add a b = (fst a + fst b, snd a + snd b)"

definition sub :: "vec \<Rightarrow> vec \<Rightarrow> vec" where
  "sub a b = (fst a - fst b, snd a - snd b)"

definition mul :: "vec \<Rightarrow> real \<Rightarrow> vec" where
  "mul a n = (fst a * n, snd a * n)"

definition neg :: "vec \<Rightarrow> vec" where
  "neg a = (- fst a, - snd a)"

definition len :: "vec \<Rightarrow> real" where
  "len a = sqrt (fst a * fst a + snd a * snd a)"

text \<open>
  Modelled from the spec: \<open>uni\<close> (normalize) belongs to the missing module \<^verbatim>\<open>./vec\<close>.
  Section 4.1 says that it must not produce NaN for a vector of length zero and returns
  \<open>(0, 0)\<close> there; every other vector is divided by its length.
\<close>

definition uni :: "vec \<Rightarrow> vec" where
  "uni a = (if len a = 0 then (0, 0) else (fst a / len a, snd a / len a))"

definition per :: "vec \<Rightarrow> vec" where
  "per a = (snd a, - fst a)"

definition dpr :: "vec \<Rightarrow> vec \<Rightarrow> real" where
  "dpr a b = fst a * fst b + snd a * snd b"

definition lrp :: "vec \<Rightarrow> vec \<Rightarrow> real \<Rightarrow> vec" where
  "lrp a b t = add a (mul (sub b a) t)"

definition dist_v :: "vec \<Rightarrow> vec \<Rightarrow> real" where
  "dist_v a b = len (sub a b)"

definition dist2 :: "vec \<Rightarrow> vec \<Rightarrow> real" where
  "dist2 a b = (fst a - fst b) * (fst a - fst b) + (snd a - snd b) * (snd a - snd b)"

definition isEqual :: "vec \<Rightarrow> vec \<Rightarrow> bool" where
  "isEqual a b = (fst a = fst b \<and> snd a = snd b)"

definition prj :: "vec \<Rightarrow> vec \<Rightarrow> real \<Rightarrow> vec" where
  "prj a b c = add a (mul b c)"

definition rotAround :: "vec \<Rightarrow> vec \<Rightarrow> real \<Rightarrow> vec" where
  "rotAround a c r =
     (let s = sin r; co = cos r;
          px = fst a - fst c; py = snd a - snd c
      in (px * co - py * s + fst c, px * s + py * co + snd c))"

subsection \<open>getStrokeRadius\<close>

text \<open>
  \<^verbatim>\<open>getStrokeRadius(size, thinning, pressure, easing = t => t)\<close>. The optional fourth
  argument is an \<open>option\<close>: \<open>None\<close> is the call that leaves it out.
\<close>

definition getStrokeRadius :: "real \<Rightarrow> real \<Rightarrow> real \<Rightarrow> (real \<Rightarrow> real) option \<Rightarrow> real" where
  "getStrokeRadius sz thinning pressure easing =
     (let easing = (case easing of None \<Rightarrow> (\<lambda>t. t) | Some f \<Rightarrow> f)
      in sz * easing (0.5 - thinning * (0.5 - pressure)))"

subsection \<open>Options\<close>

text \<open>
  Both transforms take the same options object and destructure it with defaults. Every
  field may be left out, so every field is an \<open>option\<close>; the functions \<open>size_of\<close>,
  \<open>thinning_of\<close>, ... are the destructured variables \<^verbatim>\<open>size\<close>, \<^verbatim>\<open>thinning\<close>, ... with
  the defaults of the source. The fields \<^verbatim>\<open>size\<close>, \<^verbatim>\<open>end\<close> and \<^verbatim>\<open>last\<close> carry a
  suffix because their names are taken in HOL.
\<close>

record TaperOptions =
  cap_opt :: "bool option"
  taper_opt :: "real option"
  taper_easing_opt :: "(real \<Rightarrow> real) option"

record StrokeOptions =
  size_opt :: "real option"
  thinning_opt :: "real option"
  smoothing_opt :: "real option"
  streamline_opt :: "real option"
  easing_opt :: "(real \<Rightarrow> real) option"
  simulatePressure_opt :: "bool option"
  start_opt :: "TaperOptions option"
  end_opt :: "TaperOptions option"
  last_opt :: "bool option"

definition no_taper_options :: TaperOptions where
  "no_taper_options = \<lparr>cap_opt = None, taper_opt = None, taper_easing_opt = None\<rparr>"

definition no_options :: StrokeOptions where
  "no_options = \<lparr>size_opt = None, thinning_opt = None, smoothing_opt = None,
     streamline_opt = None, easing_opt = None, simulatePressure_opt = None,
     start_opt = None, end_opt = None, last_opt = None\<rparr>"

definition dflt :: "'a \<Rightarrow> 'a option \<Rightarrow> 'a" where
  "dflt d v = (case v of None \<Rightarrow> d | Some x \<Rightarrow> x)"

definition size_of :: "StrokeOptions \<Rightarrow> real" where
  "size_of options = dflt 16 (size_opt options)"

definition smoothing_of :: "StrokeOptions \<Rightarrow> real" where
  "smoothing_of options = dflt 0.5 (smoothing_opt options)"

definition thinning_of :: "StrokeOptions \<Rightarrow> real" where
  "thinning_of options = dflt 0.5 (thinning_opt options)"

definition streamline_of :: "StrokeOptions \<Rightarrow> real" where
  "streamline_of options = dflt 0.5 (streamline_opt options)"

definition simulatePressure_of :: "StrokeOptions \<Rightarrow> bool" where
  "simulatePressure_of options = dflt True (simulatePressure_opt options)"

definition easing_of :: "StrokeOptions \<Rightarrow> real \<Rightarrow> real" where
  "easing_of options = dflt (\<lambda>t. t) (easing_opt options)"

definition isComplete_of :: "StrokeOptions \<Rightarrow> bool" where
  "isComplete_of options = dflt False (last_opt options)"

definition start_of :: "StrokeOptions \<Rightarrow> TaperOptions" where
  "start_of options = dflt no_taper_options (start_opt options)"

definition end_of :: "StrokeOptions \<Rightarrow> TaperOptions" where
  "end_of options = dflt no_taper_options (end_opt options)"

definition capStart_of :: "StrokeOptions \<Rightarrow> bool" where
  "capStart_of options = dflt True (cap_opt (start_of options))"

definition taperStart_of :: "StrokeOptions \<Rightarrow> real" where
  "taperStart_of options = dflt 0 (taper_opt (start_of options))"

definition taperStartEase_of :: "StrokeOptions \<Rightarrow> real \<Rightarrow> real" where
  "taperStartEase_of options = dflt (\<lambda>t. t * (2 - t)) (taper_easing_opt (start_of options))"

definition capEnd_of :: "StrokeOptions \<Rightarrow> bool" where
  "capEnd_of options = dflt True (cap_opt (end_of options))"

definition taperEnd_of :: "StrokeOptions \<Rightarrow> real" where
  "taperEnd_of options = dflt 0 (taper_opt (end_of options))"

definition taperEndEase_of :: "StrokeOptions \<Rightarrow> real \<Rightarrow> real" where
  "taperEndEase_of options =
     dflt (\<lambda>t. (t - 1) * (t - 1) * (t - 1) + 1) (taper_easing_opt (end_of options))"

section \<open>getStrokePoints\<close>

text \<open>
  An input point is \<^verbatim>\<open>[x, y, pressure?]\<close> or \<^verbatim>\<open>{x, y, pressure?}\<close>: the position and
  the pressure when it is given. The input is an array of such points, and nothing keeps
  one array from holding points of both forms.
\<close>

datatype InputPoint =
  is_array: ArrayPoint (position: vec) (pressure_of: "real option")
| ObjectPoint (position: vec) (pressure_of: "real option")

record StrokePoint =
  point :: vec
  pressure :: real
  vector :: vec
  distance :: real
  runningLength :: real

text \<open>
  What a call can do other than return numbers. \<open>TypeError\<close> is the exception that
  JavaScript throws when a property of \<^verbatim>\<open>undefined\<close> is read or when something that is not
  a function is called. \<open>NotANumber\<close> is no exception: the call returns, but some
  coordinate, distance or length of its result is NaN or \<^verbatim>\<open>undefined\<close>, for which the model,
  whose numbers are the reals, has no value.
\<close>

datatype error = TypeError | NotANumber

text \<open>
  The source looks at the first element only to decide the form of all points:
  \<^verbatim>\<open>Array.isArray(points[0]) ? points : points.map(({x, y, pressure = 0.5}) => [x, y, pressure])\<close>.
  So an entry of the array \<^verbatim>\<open>pts\<close> is an array of numbers \<open>[x, y, pressure?]\<close>, or, where the
  first point is an array and this one is not, the object itself (its components
  \<^verbatim>\<open>[0]\<close>, \<^verbatim>\<open>[1]\<close>, \<^verbatim>\<open>[2]\<close> are \<^verbatim>\<open>undefined\<close> and it has no \<^verbatim>\<open>slice\<close>), or, where the first point
  is an object and this one is not, an array \<^verbatim>\<open>[undefined, undefined, 0.5]\<close>. The points
  that \<^verbatim>\<open>lrp\<close> computes from entries without numbers are arrays of NaN.
\<close>

type_synonym raw_point = "vec \<times> real option"

datatype entry = is_numbers: Numbers (the_numbers: raw_point) | AnObject | NotNumbers

definition to_arrays :: "InputPoint list \<Rightarrow> entry list" where
  "to_arrays points =
     (case points of
        [] \<Rightarrow> []
      | ArrayPoint _ _ # _ \<Rightarrow>
          map (\<lambda>p. case p of ArrayPoint xy prs \<Rightarrow> Numbers (xy, prs)
                            | ObjectPoint _ _ \<Rightarrow> AnObject) points
      | ObjectPoint _ _ # _ \<Rightarrow>
          map (\<lambda>p. case p of ObjectPoint xy prs \<Rightarrow> Numbers (xy, Some (dflt 0.5 prs))
                            | ArrayPoint _ _ \<Rightarrow> NotNumbers) points)"

text \<open>\<^verbatim>\<open>lrp(a, b, t)\<close> on two entries. \<open>lrp\<close> returns a pair, so the result has no pressure.\<close>

definition lrp_entry :: "entry \<Rightarrow> entry \<Rightarrow> real \<Rightarrow> entry" where
  "lrp_entry a b t =
     (case a of
        Numbers p \<Rightarrow> (case b of Numbers q \<Rightarrow> Numbers (lrp (fst p) (fst q) t, None)
                                 | _ \<Rightarrow> NotNumbers)
      | _ \<Rightarrow> NotNumbers)"

text \<open>
  With exactly two points the last one is taken off and four points
  \<^verbatim>\<open>lrp(pts[0], last, i / 4)\<close>, \<open>i = 1..4\<close>, are pushed. With exactly one point, a second
  one at \<open>(+1, +1)\<close> is appended,
  \<^verbatim>\<open>[...add(pts[0], [1, 1]), ...pts[0].slice(2)]\<close>; it keeps the components after the
  second, and \<^verbatim>\<open>slice\<close> is missing from an object.
\<close>

definition add_points :: "entry list \<Rightarrow> error + entry list" where
  "add_points pts0 =
     (let pts = (if length pts0 = 2
                 then (let lst = pts0 ! 1; pts = butlast pts0
                       in pts @ map (\<lambda>i. lrp_entry (pts ! 0) lst (i / 4)) [1, 2, 3, 4])
                 else pts0)
      in if length pts = 1
         then (case pts ! 0 of
                 Numbers p \<Rightarrow> Inr (pts @ [Numbers (add (fst p) (1, 1), snd p)])
               | AnObject \<Rightarrow> Inl TypeError
               | NotNumbers \<Rightarrow> Inr (pts @ [NotNumbers]))
         else Inr pts)"

text \<open>\<^verbatim>\<open>p[2] >= 0 ? p[2] : d\<close>; the comparison is false when the component is missing.\<close>

definition pressure_or :: "real \<Rightarrow> real option \<Rightarrow> real" where
  "pressure_or d p = (case p of Some v \<Rightarrow> (if v \<ge> 0 then v else d) | None \<Rightarrow> d)"

text \<open>The variables of the loop of \<^verbatim>\<open>getStrokePoints\<close>.\<close>

record sp_state =
  strokePoints :: "StrokePoint list"
  hasReachedMinimumLength :: bool
  runningLength_var :: real
  prev :: StrokePoint

text \<open>
  One pass through the loop body for the index \<open>i\<close> and a point \<open>p = pts[i]\<close> that is an
  array of numbers; each \<^verbatim>\<open>continue\<close> returns the state as it is then.
\<close>

definition sp_step :: "real \<Rightarrow> real \<Rightarrow> bool \<Rightarrow> nat \<Rightarrow> nat \<Rightarrow> raw_point \<Rightarrow> sp_state \<Rightarrow> sp_state" where
  "sp_step t sz isComplete mx i p s =
     (let new_point = (if isComplete \<and> i = mx then fst p
                       else lrp (point (prev s)) (fst p) t)
      in if isEqual (point (prev s)) new_point then s
         else
           let d = dist_v new_point (point (prev s));
               s1 = s\<lparr>runningLength_var := runningLength_var s + d\<rparr>
           in if i < mx \<and> \<not> hasReachedMinimumLength s1 \<and> runningLength_var s1 < sz then s1
              else
                let s2 = (if i < mx \<and> \<not> hasReachedMinimumLength s1
                          then s1\<lparr>hasReachedMinimumLength := True\<rparr> else s1);
                    new_prev = \<lparr>point = new_point,
                                pressure = pressure_or 0.5 (snd p),
                                vector = uni (sub (point (prev s2)) new_point),
                                distance = d,
                                runningLength = runningLength_var s2\<rparr>
                in s2\<lparr>prev := new_prev, strokePoints := strokePoints s2 @ [new_prev]\<rparr>)"

text \<open>
  The same pass for any entry. The state is \<open>None\<close> once a number in it is NaN, and it
  stays so: every later point is computed from \<^verbatim>\<open>prev.point\<close>. An entry without numbers
  makes the new point NaN (\<^verbatim>\<open>lrp\<close>) or \<^verbatim>\<open>[undefined, undefined]\<close> (\<^verbatim>\<open>slice\<close>), which never equals
  the previous point, so the point is pushed or at least its distance, NaN, is added to
  the running length. Only \<^verbatim>\<open>pts[i].slice(0, 2)\<close>, at the last index when \<^verbatim>\<open>last\<close> is true,
  throws: an object has no \<^verbatim>\<open>slice\<close>.
\<close>

definition sp_step_entry ::
  "real \<Rightarrow> real \<Rightarrow> bool \<Rightarrow> nat \<Rightarrow> nat \<Rightarrow> entry \<Rightarrow> sp_state option \<Rightarrow> error + sp_state option" where
  "sp_step_entry t sz isComplete mx i e st =
     (case e of
        Numbers p \<Rightarrow> Inr (map_option (sp_step t sz isComplete mx i p) st)
      | AnObject \<Rightarrow> (if isComplete \<and> i = mx then Inl TypeError else Inr None)
      | NotNumbers \<Rightarrow> Inr None)"

text \<open>The loop \<^verbatim>\<open>for (i = 1; i < pts.length; i++)\<close>, over the entries from \<open>pts[i]\<close> on.\<close>

fun sp_loop ::
  "real \<Rightarrow> real \<Rightarrow> bool \<Rightarrow> nat \<Rightarrow> nat \<Rightarrow> entry list \<Rightarrow> sp_state option \<Rightarrow> error + sp_state option" where
  "sp_loop t sz isComplete mx i [] st = Inr st"
| "sp_loop t sz isComplete mx i (e # rest) st =
     (case sp_step_entry t sz isComplete mx i e st of
        Inl err \<Rightarrow> Inl err
      | Inr st' \<Rightarrow> sp_loop t sz isComplete mx (i + 1) rest st')"

text \<open>
  \<^verbatim>\<open>strokePoints[0].vector = strokePoints[1]?.vector || [0, 0]\<close>: an array is never
  falsy, so the second point's vector is taken whenever there is a second point.
\<close>

definition set_first_vector :: "StrokePoint list \<Rightarrow> StrokePoint list" where
  "set_first_vector sps =
     (case sps of
        [] \<Rightarrow> []
      | a # [] \<Rightarrow> [a\<lparr>vector := (0, 0)\<rparr>]
      | a # b # rest \<Rightarrow> a\<lparr>vector := vector b\<rparr> # b # rest)"

text \<open>The first stroke point and the variables before the loop, from \<open>pts[0]\<close>.\<close>

definition first_state :: "entry \<Rightarrow> sp_state option" where
  "first_state e =
     (case e of
        Numbers p \<Rightarrow>
          (let first = \<lparr>point = fst p,
                        pressure = pressure_or 0.25 (snd p),
                        vector = (1, 1),
                        distance = 0,
                        runningLength = 0\<rparr>
           in Some \<lparr>strokePoints = [first], hasReachedMinimumLength = False,
                    runningLength_var = 0, prev = first\<rparr>)
      | _ \<Rightarrow> None)"

definition getStrokePoints :: "InputPoint list \<Rightarrow> StrokeOptions \<Rightarrow> error + StrokePoint list" where
  "getStrokePoints points options =
     (if length points = 0 then Inr []
      else
        let t = 0.15 + (1 - streamline_of options) * 0.85
        in case add_points (to_arrays points) of
             Inl err \<Rightarrow> Inl err
           | Inr pts \<Rightarrow>
               (case sp_loop t (size_of options) (isComplete_of options) (length pts - 1) 1 (tl pts)
                       (first_state (pts ! 0)) of
                  Inl err \<Rightarrow> Inl err
                | Inr None \<Rightarrow> Inl NotANumber
                | Inr (Some s) \<Rightarrow> Inr (set_first_vector (strokePoints s))))"

section \<open>getStrokeOutlinePoints\<close>

definition RATE_OF_PRESSURE_CHANGE :: real where
  "RATE_OF_PRESSURE_CHANGE = 0.275"

definition FIXED_PI :: real where
  "FIXED_PI = pi + 0.0001"

text \<open>
  Reading \<^verbatim>\<open>points[i + 1].vector\<close>, \<^verbatim>\<open>leftPts[0]\<close> or \<^verbatim>\<open>rightPts[0]\<close> where the array has
  no such element gives \<^verbatim>\<open>undefined\<close>, and the next access to a component of it throws a
  \<^verbatim>\<open>TypeError\<close>. This is the only way the function can throw, so its result is
  \<open>error + vec list\<close>.
\<close>

text \<open>
  The values that \<open>t\<close> takes in \<^verbatim>\<open>for (step = 1 / 13, t = ...; t <= 1; t += step)\<close>, from
  the starting value given. The loop ends with \<open>t = 1\<close>: 13 passes from \<open>1/13\<close> and 14 from 0,
  over the reals and on the doubles of the source alike.
\<close>

function t_upto :: "real \<Rightarrow> real list" where
  "t_upto t = (if t \<le> 1 then t # t_upto (t + 1 / 13) else [])"
  by pat_completeness auto
termination
proof (relation "measure (\<lambda>t::real. nat (\<lceil>(1 - t) * 13\<rceil> + 1))")
  show "wf (measure (\<lambda>t::real. nat (\<lceil>(1 - t) * 13\<rceil> + 1)))" by simp
next
  fix t :: real
  assume le: "t \<le> 1"
  have "(1 - (t + 1 / 13)) * 13 = (1 - t) * 13 - 1" by (simp add: algebra_simps)
  then have "\<lceil>(1 - (t + 1 / 13)) * 13\<rceil> = \<lceil>(1 - t) * 13 - 1\<rceil>" by (simp only:)
  then have eq: "\<lceil>(1 - (t + 1 / 13)) * 13\<rceil> = \<lceil>(1 - t) * 13\<rceil> - 1"
    by (simp only: ceiling_diff_one)
  from le have "0 \<le> (1 - t) * 13" by simp
  then have "0 \<le> \<lceil>(1 - t) * 13\<rceil>" by linarith
  with eq show "(t + 1 / 13, t) \<in> measure (\<lambda>t::real. nat (\<lceil>(1 - t) * 13\<rceil> + 1))"
    by simp
qed

text \<open>
  The values that \<open>t\<close> takes in \<^verbatim>\<open>for (step = 1 / 29, t = step; t < 1; t += step)\<close>. The
  number of passes is that of the source, whose numbers are doubles: the double nearest
  to \<open>1/29\<close> added up 29 times, each sum rounded, is 0.9999999999999996, which is still
  below 1, so the body runs 29 times and not 28. Up to these roundings the values are
  \<open>k/29\<close> for \<open>k = 1, ..., 29\<close>.
\<close>

definition t_below :: "real list" where
  "t_below = map (\<lambda>k. real k / 29) [1..<30]"

text \<open>The variables of the main loop of \<^verbatim>\<open>getStrokeOutlinePoints\<close>.\<close>

record ol_state =
  leftPts :: "vec list"
  rightPts :: "vec list"
  prevPressure :: real
  radius :: real
  firstRadius :: "real option"
  prevVector :: vec
  pl :: vec
  pr :: vec
  tl_var :: vec
  tr_var :: vec

text \<open>
  The simulated pressure: \<^verbatim>\<open>sp = min(1, distance / size)\<close>, \<^verbatim>\<open>rp = min(1, 1 - sp)\<close>,
  \<^verbatim>\<open>min(1, acc + (rp - acc) * (sp * RATE_OF_PRESSURE_CHANGE))\<close>. The source writes these
  three lines twice, in the fold that seeds \<^verbatim>\<open>prevPressure\<close> and in the main loop.
\<close>

definition simulate :: "real \<Rightarrow> real \<Rightarrow> real \<Rightarrow> real" where
  "simulate sz d acc =
     (let sp = min 1 (d / sz);
          rp = min 1 (1 - sp)
      in min 1 (acc + (rp - acc) * (sp * RATE_OF_PRESSURE_CHANGE)))"

definition initial_pressure :: "StrokePoint list \<Rightarrow> StrokeOptions \<Rightarrow> real" where
  "initial_pressure points options =
     foldl (\<lambda>acc curr.
              let p = (if simulatePressure_of options
                       then simulate (size_of options) (distance curr) acc
                       else pressure curr)
              in (acc + p) / 2)
           (pressure (points ! 0)) (take 10 points)"

text \<open>
  One turn of the loop at a sharp corner:
  \<^verbatim>\<open>tl = rotAround(sub(point, offset), point, FIXED_PI * t); leftPts.push(tl);
  tr = rotAround(add(point, offset), point, FIXED_PI * -t); rightPts.push(tr)\<close>.
\<close>

definition corner_step :: "vec \<Rightarrow> vec \<Rightarrow> real \<Rightarrow> ol_state \<Rightarrow> ol_state" where
  "corner_step pnt offset t s =
     (let l = rotAround (sub pnt offset) pnt (FIXED_PI * t);
          s1 = s\<lparr>tl_var := l, leftPts := leftPts s @ [l]\<rparr>;
          r = rotAround (add pnt offset) pnt (FIXED_PI * - t)
      in s1\<lparr>tr_var := r, rightPts := rightPts s1 @ [r]\<rparr>)"

text \<open>
  The body of \<^verbatim>\<open>for (i = 0; i < points.length; i++)\<close> is written in the source as a
  sequence of commented blocks; each block is one function here, on the point
  \<open>p = points[i]\<close> and the variables of the loop.

  The pressure of the point after \<^verbatim>\<open>if (thinning) { if (simulatePressure) { ... } }\<close>;
  \<^verbatim>\<open>if (thinning)\<close> tests that the number is not zero.
\<close>

definition point_pressure :: "StrokeOptions \<Rightarrow> StrokePoint \<Rightarrow> ol_state \<Rightarrow> real" where
  "point_pressure options p s =
     (if thinning_of options \<noteq> 0 \<and> simulatePressure_of options
      then simulate (size_of options) (distance p) (prevPressure s)
      else pressure p)"

text \<open>"Calculate the radius", with \<^verbatim>\<open>if (firstRadius === undefined) firstRadius = radius\<close>.\<close>

definition calculate_radius :: "StrokeOptions \<Rightarrow> StrokePoint \<Rightarrow> ol_state \<Rightarrow> ol_state" where
  "calculate_radius options p s =
     (let s1 = s\<lparr>radius := (if thinning_of options \<noteq> 0
                             then getStrokeRadius (size_of options) (thinning_of options)
                                    (point_pressure options p s) (Some (easing_of options))
                             else size_of options / 2)\<rparr>
      in case firstRadius s1 of
           None \<Rightarrow> s1\<lparr>firstRadius := Some (radius s1)\<rparr>
         | Some _ \<Rightarrow> s1)"

text \<open>"Apply tapering".\<close>

definition apply_tapering :: "StrokeOptions \<Rightarrow> real \<Rightarrow> StrokePoint \<Rightarrow> ol_state \<Rightarrow> ol_state" where
  "apply_tapering options totalLength p s =
     (let ts = (if runningLength p < taperStart_of options
                then taperStartEase_of options (runningLength p / taperStart_of options)
                else 1);
          te = (if totalLength - runningLength p < taperEnd_of options
                then taperEndEase_of options ((totalLength - runningLength p) / taperEnd_of options)
                else 1)
      in s\<lparr>radius := max 0.01 (radius s * min ts te)\<rparr>)"

text \<open>"Handle the last point".\<close>

definition last_point :: "StrokePoint \<Rightarrow> ol_state \<Rightarrow> ol_state" where
  "last_point p s =
     (let offset = mul (per (vector p)) (radius s)
      in s\<lparr>leftPts := leftPts s @ [sub (point p) offset],
            rightPts := rightPts s @ [add (point p) offset]\<rparr>)"

text \<open>"Handle sharp corners": the loop over \<open>t = 0, 1/13, ...\<close>, then \<^verbatim>\<open>pl = tl; pr = tr\<close>.\<close>

definition sharp_corner :: "StrokePoint \<Rightarrow> ol_state \<Rightarrow> ol_state" where
  "sharp_corner p s =
     (let offset = mul (per (prevVector s)) (radius s);
          s1 = fold (corner_step (point p) offset) (t_upto 0) s
      in s1\<lparr>pl := tl_var s1, pr := tr_var s1\<rparr>)"

text \<open>"Add regular points".\<close>

definition regular_point :: "real \<Rightarrow> nat \<Rightarrow> StrokePoint \<Rightarrow> vec \<Rightarrow> real \<Rightarrow> ol_state \<Rightarrow> ol_state" where
  "regular_point minDistance i p nextVector nextDpr s =
     (let offset = mul (per (lrp nextVector (vector p) nextDpr)) (radius s);
          s1 = s\<lparr>tl_var := sub (point p) offset\<rparr>;
          s2 = (if i \<le> 1 \<or> dist2 (pl s1) (tl_var s1) > minDistance
                then s1\<lparr>leftPts := leftPts s1 @ [tl_var s1], pl := tl_var s1\<rparr>
                else s1);
          s3 = s2\<lparr>tr_var := add (point p) offset\<rparr>
      in if i \<le> 1 \<or> dist2 (pr s3) (tr_var s3) > minDistance
         then s3\<lparr>rightPts := rightPts s3 @ [tr_var s3], pr := tr_var s3\<rparr>
         else s3)"

text \<open>
  One pass through the body, for the index \<open>i\<close>, the point \<open>p = points[i]\<close> and the points
  \<open>rest\<close> after it; \<open>n\<close> is \<^verbatim>\<open>points.length\<close>. The first test is the \<^verbatim>\<open>continue\<close> that
  removes noise from the end of the line. \<^verbatim>\<open>prevPressure\<close> and \<^verbatim>\<open>prevVector\<close> are set at
  the end of the body, which only a regular point reaches.
\<close>

definition ol_step ::
  "StrokeOptions \<Rightarrow> nat \<Rightarrow> real \<Rightarrow> real \<Rightarrow> nat \<Rightarrow> StrokePoint \<Rightarrow> StrokePoint list \<Rightarrow> ol_state
     \<Rightarrow> error + ol_state" where
  "ol_step options n totalLength minDistance i p rest s =
     (if i < n - 1 \<and> totalLength - runningLength p < 3 then Inr s
      else
        let pressure_i = point_pressure options p s;
            s1 = apply_tapering options totalLength p (calculate_radius options p s)
        in if i = n - 1 then Inr (last_point p s1)
           else
             (case rest of
                [] \<Rightarrow> Inl TypeError
              | nxt # _ \<Rightarrow>
                  let nextVector = vector nxt;
                      nextDpr = dpr (vector p) nextVector
                  in if nextDpr < 0 then Inr (sharp_corner p s1)
                     else Inr ((regular_point minDistance i p nextVector nextDpr s1)
                                 \<lparr>prevPressure := pressure_i, prevVector := vector p\<rparr>)))"

fun ol_loop ::
  "StrokeOptions \<Rightarrow> nat \<Rightarrow> real \<Rightarrow> real \<Rightarrow> nat \<Rightarrow> StrokePoint list \<Rightarrow> ol_state
     \<Rightarrow> error + ol_state" where
  "ol_loop options n totalLength minDistance i [] s = Inr s"
| "ol_loop options n totalLength minDistance i (p # rest) s =
     (case ol_step options n totalLength minDistance i p rest s of
        Inl e \<Rightarrow> Inl e
      | Inr s' \<Rightarrow> ol_loop options n totalLength minDistance (i + 1) rest s')"

text \<open>
  The dot of a stroke of one point: \<^verbatim>\<open>firstRadius || radius\<close> is \<^verbatim>\<open>radius\<close> when
  \<^verbatim>\<open>firstRadius\<close> is undefined or zero.
\<close>

definition dot_points :: "vec \<Rightarrow> vec \<Rightarrow> ol_state \<Rightarrow> vec list" where
  "dot_points firstPoint lastPoint s =
     (let r = (case firstRadius s of
                 None \<Rightarrow> radius s
               | Some fr \<Rightarrow> if fr \<noteq> 0 then fr else radius s);
          start = prj firstPoint (uni (per (sub firstPoint lastPoint))) (- r)
      in map (\<lambda>t. rotAround start firstPoint (FIXED_PI * 2 * t)) (t_upto (1 / 13)))"

definition start_cap :: "StrokePoint list \<Rightarrow> StrokeOptions \<Rightarrow> vec \<Rightarrow> ol_state \<Rightarrow> error + vec list" where
  "start_cap points options firstPoint s =
     (if taperStart_of options \<noteq> 0 \<or> (taperEnd_of options \<noteq> 0 \<and> length points = 1)
      then Inr []
      else if capStart_of options
      then (case rightPts s of
              [] \<Rightarrow> Inl TypeError
            | r0 # _ \<Rightarrow> Inr (map (\<lambda>t. rotAround r0 firstPoint (FIXED_PI * t)) (t_upto (1 / 13))))
      else (case leftPts s of
              [] \<Rightarrow> Inl TypeError
            | l0 # _ \<Rightarrow>
                (case rightPts s of
                   [] \<Rightarrow> Inl TypeError
                 | r0 # _ \<Rightarrow>
                     let cornersVector = sub l0 r0;
                         offsetA = mul cornersVector 0.5;
                         offsetB = mul cornersVector 0.51
                     in Inr [sub firstPoint offsetA, sub firstPoint offsetB,
                             add firstPoint offsetB, add firstPoint offsetA])))"

definition end_cap :: "StrokePoint list \<Rightarrow> StrokeOptions \<Rightarrow> vec \<Rightarrow> ol_state \<Rightarrow> vec list" where
  "end_cap points options lastPoint s =
     (let direction = per (neg (vector (points ! (length points - 1))))
      in if taperEnd_of options \<noteq> 0 \<or> (taperStart_of options \<noteq> 0 \<and> length points = 1)
         then [lastPoint]
         else if capEnd_of options
         then (let start = prj lastPoint direction (radius s)
               in map (\<lambda>t. rotAround start lastPoint (FIXED_PI * 3 * t)) t_below)
         else [add lastPoint (mul direction (radius s)),
               add lastPoint (mul direction (radius s * 0.99)),
               sub lastPoint (mul direction (radius s * 0.99)),
               sub lastPoint (mul direction (radius s))])"

text \<open>Everything after the main loop.\<close>

definition draw_caps :: "StrokePoint list \<Rightarrow> StrokeOptions \<Rightarrow> ol_state \<Rightarrow> error + vec list" where
  "draw_caps points options s =
     (let firstPoint = point (points ! 0);
          lastPoint = (if length points > 1 then point (points ! (length points - 1))
                       else add (point (points ! 0)) (1, 1))
      in if length points = 1
         then (if \<not> (taperStart_of options \<noteq> 0 \<or> taperEnd_of options \<noteq> 0) \<or> isComplete_of options
               then Inr (dot_points firstPoint lastPoint s)
               else Inr (leftPts s @ [] @ rev (rightPts s) @ []))
         else
           (case start_cap points options firstPoint s of
              Inl e \<Rightarrow> Inl e
            | Inr startCap \<Rightarrow>
                Inr (leftPts s @ end_cap points options lastPoint s @ rev (rightPts s) @ startCap)))"

definition getStrokeOutlinePoints :: "StrokePoint list \<Rightarrow> StrokeOptions \<Rightarrow> error + vec list" where
  "getStrokeOutlinePoints points options =
     (if length points = 0 \<or> size_of options \<le> 0 then Inr []
      else
        let totalLength = runningLength (points ! (length points - 1));
            minDistance = (size_of options * smoothing_of options) ^ 2;
            s0 = \<lparr>leftPts = [], rightPts = [],
                  prevPressure = initial_pressure points options,
                  radius = getStrokeRadius (size_of options) (thinning_of options)
                             (pressure (points ! (length points - 1))) (Some (easing_of options)),
                  firstRadius = None,
                  prevVector = vector (points ! 0),
                  pl = point (points ! 0), pr = point (points ! 0),
                  tl_var = point (points ! 0), tr_var = point (points ! 0)\<rparr>
        in case ol_loop options (length points) totalLength minDistance 0 points s0 of
             Inl e \<Rightarrow> Inl e
           | Inr s \<Rightarrow> draw_caps points options s)"

subsection \<open>Auxiliary definitions for the proofs about getStrokePoints\<close>

text \<open>
  An input is in one form when its points are all arrays or all objects. For such an
  input every entry of \<^verbatim>\<open>pts\<close> is an array of numbers: \<open>numbers_of\<close> is that array after the
  conversion, \<open>add_points_numbers\<close> is \<open>add_points\<close> on arrays of numbers, \<open>array_points\<close> is
  the array that the loop runs over, \<open>sp_loop_numbers\<close> is the loop on arrays of numbers,
  \<open>sp_init\<close> is the state before the loop and \<open>sp_final\<close> the state after it.
  \<open>emitted_indices\<close> lists the indices \<open>i\<close> whose pass through the loop pushed a stroke
  point. \<open>sp_inv\<close> is the invariant of the loop: \<^verbatim>\<open>prev\<close> is the last stroke point, the running
  total is at least its running length and equals it once a second stroke point exists,
  and the stroke points so far have the properties that the theorem about running
  lengths states.
\<close>

definition one_form :: "InputPoint list \<Rightarrow> bool" where
  "one_form points \<longleftrightarrow> list_all is_array points \<or> list_all (\<lambda>p. \<not> is_array p) points"

definition numbers_of :: "InputPoint list \<Rightarrow> raw_point list" where
  "numbers_of points =
     (case points of
        [] \<Rightarrow> []
      | ArrayPoint _ _ # _ \<Rightarrow> map (\<lambda>p. (position p, pressure_of p)) points
      | ObjectPoint _ _ # _ \<Rightarrow> map (\<lambda>p. (position p, Some (dflt 0.5 (pressure_of p)))) points)"

definition add_points_numbers :: "raw_point list \<Rightarrow> raw_point list" where
  "add_points_numbers pts0 =
     (let pts = (if length pts0 = 2
                 then (let lst = pts0 ! 1; pts = butlast pts0
                       in pts @ map (\<lambda>i. (lrp (fst (pts ! 0)) (fst lst) (i / 4), None)) [1, 2, 3, 4])
                 else pts0)
      in if length pts = 1
         then pts @ [(add (fst (pts ! 0)) (1, 1), snd (pts ! 0))]
         else pts)"

definition array_points :: "InputPoint list \<Rightarrow> raw_point list" where
  "array_points points = add_points_numbers (numbers_of points)"

fun sp_loop_numbers ::
  "real \<Rightarrow> real \<Rightarrow> bool \<Rightarrow> nat \<Rightarrow> nat \<Rightarrow> raw_point list \<Rightarrow> sp_state \<Rightarrow> sp_state" where
  "sp_loop_numbers t sz isComplete mx i [] s = s"
| "sp_loop_numbers t sz isComplete mx i (p # rest) s =
     sp_loop_numbers t sz isComplete mx (i + 1) rest (sp_step t sz isComplete mx i p s)"

fun sp_emitted :: "real \<Rightarrow> real \<Rightarrow> bool \<Rightarrow> nat \<Rightarrow> nat \<Rightarrow> raw_point list \<Rightarrow> sp_state \<Rightarrow> nat list" where
  "sp_emitted t sz isComplete mx i [] s = []"
| "sp_emitted t sz isComplete mx i (p # rest) s =
     (if strokePoints (sp_step t sz isComplete mx i p s) = strokePoints s then [] else [i])
     @ sp_emitted t sz isComplete mx (i + 1) rest (sp_step t sz isComplete mx i p s)"


definition sp_init :: "raw_point list \<Rightarrow> sp_state" where
  "sp_init pts =
     (let first = \<lparr>point = fst (pts ! 0), pressure = pressure_or 0.25 (snd (pts ! 0)),
                    vector = (1, 1), distance = 0, runningLength = 0\<rparr>
      in \<lparr>strokePoints = [first], hasReachedMinimumLength = False,
           runningLength_var = 0, prev = first\<rparr>)"

definition sp_final :: "InputPoint list \<Rightarrow> StrokeOptions \<Rightarrow> sp_state" where
  "sp_final points options =
     sp_loop_numbers (0.15 + (1 - streamline_of options) * 0.85) (size_of options)
       (isComplete_of options) (length (array_points points) - 1) 1
       (tl (array_points points)) (sp_init (array_points points))"

definition emitted_indices :: "InputPoint list \<Rightarrow> StrokeOptions \<Rightarrow> nat list" where
  "emitted_indices points options =
     sp_emitted (0.15 + (1 - streamline_of options) * 0.85) (size_of options)
       (isComplete_of options) (length (array_points points) - 1) 1
       (tl (array_points points)) (sp_init (array_points points))"


subsection \<open>Auxiliary definitions for the proofs about getStrokeOutlinePoints\<close>

text \<open>
  \<open>ol_rel\<close> relates two states of the main loop that agree on every variable but
  \<^verbatim>\<open>prevPressure\<close>; \<open>same_but_pressure\<close> relates two stroke points that agree on every field
  but \<^verbatim>\<open>pressure\<close>.
\<close>

definition ol_rel :: "ol_state \<Rightarrow> ol_state \<Rightarrow> bool" where
  "ol_rel s s' \<longleftrightarrow>
     leftPts s' = leftPts s \<and> rightPts s' = rightPts s \<and> radius s' = radius s
     \<and> firstRadius s' = firstRadius s \<and> prevVector s' = prevVector s
     \<and> pl s' = pl s \<and> pr s' = pr s \<and> tl_var s' = tl_var s \<and> tr_var s' = tr_var s"

definition same_but_pressure :: "StrokePoint \<Rightarrow> StrokePoint \<Rightarrow> bool" where
  "same_but_pressure p q \<longleftrightarrow>
     point q = point p \<and> vector q = vector p \<and> distance q = distance p
     \<and> runningLength q = runningLength p"

definition ol_init :: "StrokePoint list \<Rightarrow> StrokeOptions \<Rightarrow> ol_state" where
  "ol_init points options =
     \<lparr>leftPts = [], rightPts = [],
      prevPressure = initial_pressure points options,
      radius = getStrokeRadius (size_of options) (thinning_of options)
                 (pressure (points ! (length points - 1))) (Some (easing_of options)),
      firstRadius = None,
      prevVector = vector (points ! 0),
      pl = point (points ! 0), pr = point (points ! 0),
      tl_var = point (points ! 0), tr_var = point (points ! 0)\<rparr>"

section \<open>Properties of the vector operations and of the radius\<close>

lemma len_horizontal: "len (a, 0) = \<bar>a\<bar>"
  by (simp add: len_def)

lemma len_zero_iff: "len v = 0 \<longleftrightarrow> v = (0, 0)"
  by (cases v) (simp add: len_def sum_squares_eq_zero_iff real_sqrt_eq_zero_cancel_iff flip: power2_eq_square)

lemma len_nonneg: "0 \<le> len v"
  by (simp add: len_def)

lemma len_uni: "len (uni v) = (if v = (0, 0) then 0 else 1)"
proof (cases "v = (0, 0)")
  case True
  then show ?thesis by (simp add: uni_def len_def)
next
  case False
  then have nz: "len v \<noteq> 0" by (simp add: len_zero_iff)
  have pos: "0 < len v" using nz len_nonneg [of v] by linarith
  have sq: "len v * len v = fst v * fst v + snd v * snd v"
    by (simp add: len_def)
  have A0: "fst v * fst v + snd v * snd v \<noteq> 0"
    using nz sq by (metis mult_eq_0_iff)
  have "fst v / len v * (fst v / len v) + snd v / len v * (snd v / len v)
          = (fst v * fst v + snd v * snd v) / (len v * len v)"
    by (simp add: add_divide_distrib)
  also have "\<dots> = 1" unfolding sq using A0 by (rule divide_self)
  finally have "len (uni v) = sqrt 1"
    using nz by (simp add: uni_def) (simp add: len_def)
  then have "len (uni v) = 1" by simp
  then show ?thesis using False by simp
qed

lemma lrp_one: "lrp a b 1 = b"
  by (cases a, cases b) (simp add: lrp_def add_def mul_def sub_def)

lemma isEqual_iff: "isEqual a b \<longleftrightarrow> a = b"
  by (cases a, cases b) (simp add: isEqual_def)


lemma dist_v_horizontal: "dist_v (a, 0) (b, 0) = \<bar>a - b\<bar>"
  by (simp add: dist_v_def sub_def len_horizontal)

lemma uni_horizontal: "uni (a, 0) = (sgn a, 0)"
  by (simp add: uni_def len_horizontal sgn_real_def)




lemmas vec_simps = add_def sub_def mul_def lrp_def isEqual_def

text \<open>
  C5. \<open>getStrokeRadius\<close> returns \<open>size * easing (0.5 - thinning * (0.5 - pressure))\<close>, with
  the identity for a missing easing. With \<open>thinning = 0\<close> the result is
  \<open>size * easing 0.5\<close> whatever the pressure is. Nothing is clamped: size 16, thinning 1
  and pressure \<open>-1\<close> give \<open>-16\<close>.
\<close>

theorem getStrokeRadius_formula:
  "getStrokeRadius sz thinning p (Some easing) = sz * easing (0.5 - thinning * (0.5 - p))
   \<and> getStrokeRadius sz thinning p None = sz * (0.5 - thinning * (0.5 - p))
   \<and> getStrokeRadius sz 0 p (Some easing) = sz * easing 0.5
   \<and> getStrokeRadius sz 0 p None = sz * 0.5
   \<and> getStrokeRadius 16 1 (- 1) None = - 16"
  by (simp add: getStrokeRadius_def)

text \<open>
  C8. \<open>uni\<close> of the vector of length zero is \<open>(0, 0)\<close>. For every vector the result is a
  pair of numbers: the division is by a length that is not zero, the result is \<open>(0, 0)\<close>
  exactly for a vector of length zero and has length one for every other vector.
\<close>

theorem uni_zero_length:
  "uni (0, 0) = (0, 0) \<and> (uni v = (0, 0)) = (len v = 0) \<and> len (uni v) = (if len v = 0 then 0 else 1)"
  apply (simp add: len_uni len_zero_iff)
  apply (simp add: uni_def len_zero_iff)
  apply (cases v)
  apply (auto simp: len_zero_iff)
  done

section \<open>Properties of getStrokePoints\<close>

subsection \<open>The added points and the first vector\<close>

lemma add_points_numbers_two:
  "add_points_numbers [a, b] =
     [a, (lrp (fst a) (fst b) (1 / 4), None), (lrp (fst a) (fst b) (2 / 4), None),
      (lrp (fst a) (fst b) (3 / 4), None), (fst b, None)]"
  by (simp add: add_points_numbers_def lrp_one)

lemma add_points_numbers_one: "add_points_numbers [a] = [a, (add (fst a) (1, 1), snd a)]"
  by (simp add: add_points_numbers_def)

lemma add_points_numbers_many: "3 \<le> length pts \<Longrightarrow> add_points_numbers pts = pts"
  by (simp add: add_points_numbers_def)

lemma add_points_cases:
  obtains "pts = []" | a where "pts = [a]" | a b where "pts = [a, b]" | "3 \<le> length pts"
proof (cases pts)
  case Nil
  then show ?thesis using that by blast
next
  case (Cons a as)
  note c1 = this
  show ?thesis
  proof (cases as)
    case Nil
    with c1 show ?thesis using that by blast
  next
    case (Cons b bs)
    note c2 = this
    show ?thesis
    proof (cases bs)
      case Nil
      with c1 c2 show ?thesis using that by blast
    next
      case (Cons c cs)
      with c1 c2 have "3 \<le> length pts" by simp
      then show ?thesis using that by blast
    qed
  qed
qed

lemma add_points_numbers_length: "pts \<noteq> [] \<Longrightarrow> 2 \<le> length (add_points_numbers pts)"
  by (cases pts) (auto simp: add_points_numbers_def Let_def Suc_le_eq)

lemma add_points_numbers_hd: "pts \<noteq> [] \<Longrightarrow> add_points_numbers pts ! 0 = pts ! 0"
  by (cases pts) (auto simp: add_points_numbers_def Let_def nth_append butlast_append)

lemma add_points_numbers_last:
  "2 \<le> length pts \<Longrightarrow> fst (last (add_points_numbers pts)) = fst (last pts)"
proof (cases "length pts = 2")
  case True
  then obtain a b where "pts = [a, b]"
    by (auto simp: numeral_2_eq_2 length_Suc_conv)
  then show ?thesis by (simp add: add_points_numbers_two)
next
  case False
  assume "2 \<le> length pts"
  with False have "3 \<le> length pts" by simp
  then show ?thesis by (simp add: add_points_numbers_many)
qed

lemma add_points_numbers_snd:
  assumes "p \<in> set (add_points_numbers pts)"
  shows "snd p = None \<or> snd p \<in> snd ` set pts"
proof (cases pts rule: add_points_cases)
  case 1
  with assms show ?thesis by (simp add: add_points_numbers_def)
next
  case (2 a)
  with assms show ?thesis by (auto simp: add_points_numbers_one)
next
  case (3 a b)
  with assms show ?thesis by (auto simp: add_points_numbers_two)
next
  case 4
  with assms show ?thesis by (auto simp: add_points_numbers_many)
qed

lemma add_points_numbers_last_single:
  "length pts = 1 \<Longrightarrow> fst (last (add_points_numbers pts)) = add (fst (hd pts)) (1, 1)"
  by (cases pts) (simp_all add: add_points_numbers_one)

lemma numbers_of_map:
  "numbers_of points =
     map (\<lambda>p. (position p, if is_array (hd points) then pressure_of p
                             else Some (dflt 0.5 (pressure_of p)))) points"
  by (cases points; cases "hd points") (simp_all add: numbers_of_def)

lemma numbers_of_length: "length (numbers_of points) = length points"
  by (simp add: numbers_of_map)

lemma numbers_of_nth:
  "j < length points \<Longrightarrow>
   numbers_of points ! j =
     (position (points ! j), if is_array (hd points) then pressure_of (points ! j)
                              else Some (dflt 0.5 (pressure_of (points ! j))))"
  by (simp add: numbers_of_map)

lemma numbers_of_last: "points \<noteq> [] \<Longrightarrow> fst (last (numbers_of points)) = position (last points)"
  by (simp add: numbers_of_map last_map)

lemma numbers_of_hd: "points \<noteq> [] \<Longrightarrow> fst (hd (numbers_of points)) = position (hd points)"
  by (simp add: numbers_of_map hd_map)

lemma numbers_of_snd:
  assumes "q \<in> set (numbers_of points)"
    and "\<forall>p \<in> set points. case pressure_of p of None \<Rightarrow> True | Some v \<Rightarrow> v < 0"
  shows "pressure_or 0.5 (snd q) = 0.5"
  using assms
  by (auto simp: numbers_of_map pressure_or_def dflt_def split: option.splits if_splits)

lemma numbers_of_first:
  "points \<noteq> [] \<Longrightarrow>
   pressure_or 0.25 (snd (numbers_of points ! 0)) =
     (case pressure_of (hd points) of
        Some v \<Rightarrow> if v \<ge> 0 then v else 0.25
      | None \<Rightarrow> if is_array (hd points) then 0.25 else 0.5)"
  by (cases points)
     (auto simp: numbers_of_map pressure_or_def dflt_def split: option.splits)

lemma numbers_of_pressure:
  "j < length points \<Longrightarrow>
   pressure_or 0.5 (snd (numbers_of points ! j)) =
     (case pressure_of (points ! j) of Some v \<Rightarrow> if v \<ge> 0 then v else 0.5 | None \<Rightarrow> 0.5)"
  by (auto simp: numbers_of_nth pressure_or_def dflt_def split: option.splits)

lemma array_points_length: "points \<noteq> [] \<Longrightarrow> 2 \<le> length (array_points points)"
  unfolding array_points_def
  by (rule add_points_numbers_length) (simp add: numbers_of_map)

lemma array_points_many: "3 \<le> length points \<Longrightarrow> array_points points = numbers_of points"
  by (simp add: array_points_def add_points_numbers_many numbers_of_length)

lemma set_first_vector_tl: "tl (set_first_vector sps) = tl sps"
  by (simp add: set_first_vector_def split: list.splits)

lemma set_first_vector_Nil: "set_first_vector sps = [] \<longleftrightarrow> sps = []"
  by (simp add: set_first_vector_def split: list.splits)


lemma set_first_vector_hd:
  "sps \<noteq> [] \<Longrightarrow> hd (set_first_vector sps) = (hd sps)\<lparr>vector := vector (hd (set_first_vector sps))\<rparr>"
  by (simp add: set_first_vector_def split: list.splits)


lemma set_first_vector_last:
  "sps \<noteq> [] \<Longrightarrow> last (set_first_vector sps) = (last sps)\<lparr>vector := vector (last (set_first_vector sps))\<rparr>"
  by (simp add: set_first_vector_def split: list.splits)

lemma set_first_vector_point: "map point (set_first_vector sps) = map point sps"
  by (simp add: set_first_vector_def split: list.splits)

lemma set_first_vector_runningLength:
  "map runningLength (set_first_vector sps) = map runningLength sps"
  by (simp add: set_first_vector_def split: list.splits)

subsection \<open>Inputs in one form and inputs that mix the forms\<close>

lemma to_arrays_map:
  "to_arrays points =
     map (\<lambda>p. if is_array (hd points)
              then (case p of ArrayPoint xy prs \<Rightarrow> Numbers (xy, prs)
                            | ObjectPoint _ _ \<Rightarrow> AnObject)
              else (case p of ObjectPoint xy prs \<Rightarrow> Numbers (xy, Some (dflt 0.5 prs))
                            | ArrayPoint _ _ \<Rightarrow> NotNumbers)) points"
proof (cases points)
  case Nil
  then show ?thesis by (simp add: to_arrays_def)
next
  case (Cons p ps)
  then show ?thesis
    by (cases p)
       (simp_all only: to_arrays_def list.case InputPoint.case list.sel InputPoint.disc
          if_True if_False)
qed



lemma entry_of_array:
  "is_array p \<Longrightarrow>
   (case p of ArrayPoint xy prs \<Rightarrow> Numbers (xy, prs) | ObjectPoint _ _ \<Rightarrow> AnObject)
     = Numbers (position p, pressure_of p)"
  by (cases p) simp_all

lemma entry_of_object:
  "\<not> is_array p \<Longrightarrow>
   (case p of ObjectPoint xy prs \<Rightarrow> Numbers (xy, Some (dflt 0.5 prs))
            | ArrayPoint _ _ \<Rightarrow> NotNumbers)
     = Numbers (position p, Some (dflt 0.5 (pressure_of p)))"
  by (cases p) simp_all


lemma to_arrays_one_form: "one_form points \<Longrightarrow> to_arrays points = map Numbers (numbers_of points)"
proof (cases "points = []")
  case True
  then show ?thesis by (simp add: to_arrays_def numbers_of_def)
next
  case False
  then have h: "hd points \<in> set points" by simp
  assume "one_form points"
  then consider "\<forall>p \<in> set points. is_array p" | "\<forall>p \<in> set points. \<not> is_array p"
    unfolding one_form_def list_all_iff by blast
  then show ?thesis
  proof cases
    case 1
    with h have "is_array (hd points)" by blast
    with 1 show ?thesis by (simp add: to_arrays_map numbers_of_map entry_of_array)
  next
    case 2
    with h have "\<not> is_array (hd points)" by blast
    with 2 show ?thesis by (simp add: to_arrays_map numbers_of_map entry_of_object)
  qed
qed



lemma add_points_Numbers: "add_points (map Numbers ps) = Inr (map Numbers (add_points_numbers ps))"
  by (cases ps rule: add_points_cases)
     (auto simp: add_points_def add_points_numbers_def lrp_entry_def Let_def)



lemma sp_loop_entries:
  assumes "i + length es = mx + 1"
  shows "sp_loop t sz c mx i es st =
           (if c \<and> es \<noteq> [] \<and> last es = AnObject then Inl TypeError
            else Inr (if list_all is_numbers es
                      then map_option (sp_loop_numbers t sz c mx i (map the_numbers es)) st
                      else None))"
  using assms
proof (induction es arbitrary: i st)
  case Nil
  have "sp_loop_numbers t sz c mx i [] = (\<lambda>s. s)" by (rule ext) simp
  then show ?case by (simp add: option.map_ident)
next
  case (Cons e es)
  from Cons.prems have n: "(i + 1) + length es = mx + 1" and m: "i = mx \<longleftrightarrow> es = []"
    by auto
  show ?case
  proof (cases e)
    case (Numbers p)
    have L: "sp_loop_numbers t sz c mx i (p # ps) =
               (\<lambda>x. sp_loop_numbers t sz c mx (Suc i) ps (sp_step t sz c mx i p x))" for ps
      by (rule ext) simp
    from Numbers show ?thesis
      using Cons.IH [OF n, of "map_option (sp_step t sz c mx i p) st"]
      by (simp add: sp_step_entry_def option.map_comp comp_def L)
  next
    case AnObject
    then show ?thesis
      using Cons.IH [OF n, of None] m
      by (cases c) (auto simp: sp_step_entry_def)
  next
    case NotNumbers
    then show ?thesis
      using Cons.IH [OF n, of None] m
      by (cases c) (auto simp: sp_step_entry_def)
  qed
qed

lemma first_state_Numbers: "ps \<noteq> [] \<Longrightarrow> first_state (map Numbers ps ! 0) = Some (sp_init ps)"
  by (cases ps) (simp_all add: first_state_def sp_init_def Let_def)

lemma getStrokePoints_one_form:
  assumes "one_form points" and "points \<noteq> []"
  shows "getStrokePoints points options =
           Inr (set_first_vector (strokePoints (sp_final points options)))"
proof -
  let ?pts = "array_points points"
  have a: "add_points (to_arrays points) = Inr (map Numbers ?pts)"
    by (simp add: to_arrays_one_form [OF assms(1)] add_points_Numbers array_points_def)
  from array_points_length [OF assms(2)] have len: "2 \<le> length ?pts" .
  then have ne: "?pts \<noteq> []" by auto
  from len have idx: "1 + length (tl (map Numbers ?pts)) = (length (map Numbers ?pts) - 1) + 1"
    by simp
  have T: "tl (map Numbers ?pts) = map Numbers (tl ?pts)" by (simp add: map_tl)
  have nums: "list_all is_numbers (tl (map Numbers ?pts))"
    unfolding T by (simp add: list_all_iff)
  have bk: "map the_numbers (tl (map Numbers ?pts)) = tl ?pts"
    unfolding T by (simp add: comp_def)
  have "tl (map Numbers ?pts) = [] \<or> last (tl (map Numbers ?pts)) \<noteq> AnObject"
    by (cases ?pts) (auto simp: last_map)
  then have b: "sp_loop (0.15 + (1 - streamline_of options) * 0.85) (size_of options)
             (isComplete_of options) (length (map Numbers ?pts) - 1) 1 (tl (map Numbers ?pts))
             (first_state (map Numbers ?pts ! 0)) = Inr (Some (sp_final points options))"
    unfolding sp_loop_entries [OF idx] first_state_Numbers [OF ne] bk
    using nums by (auto simp: sp_final_def)
  from assms(2) show ?thesis
    unfolding getStrokePoints_def Let_def a using b by simp
qed





subsection \<open>The loop\<close>



lemma sp_step_hd:
  "strokePoints s \<noteq> [] \<Longrightarrow>
   strokePoints (sp_step t sz isComplete mx i p s) \<noteq> []
   \<and> hd (strokePoints (sp_step t sz isComplete mx i p s)) = hd (strokePoints s)"
  by (simp add: sp_step_def Let_def)

lemma sp_loop_hd:
  "strokePoints s \<noteq> [] \<Longrightarrow>
   strokePoints (sp_loop_numbers t sz isComplete mx i ps s) \<noteq> []
   \<and> hd (strokePoints (sp_loop_numbers t sz isComplete mx i ps s)) = hd (strokePoints s)"
proof (induction ps arbitrary: i s)
  case Nil
  then show ?case by simp
next
  case (Cons p ps)
  from sp_step_hd [OF Cons.prems, of t sz isComplete mx i p]
  have ne: "strokePoints (sp_step t sz isComplete mx i p s) \<noteq> []"
    and h: "hd (strokePoints (sp_step t sz isComplete mx i p s)) = hd (strokePoints s)"
    by simp_all
  from Cons.IH [OF ne, of "i + 1"] h show ?case by simp
qed

lemma sp_step_last_point:
  assumes "strokePoints s \<noteq> []" and "prev s = last (strokePoints s)"
  shows "point (last (strokePoints (sp_step t sz True mx mx p s))) = fst p"
  using assms by (simp add: sp_step_def Let_def isEqual_iff)

lemma sp_step_prev:
  assumes "strokePoints s \<noteq> []" and "prev s = last (strokePoints s)"
  shows "strokePoints (sp_step t sz isComplete mx i p s) \<noteq> []
         \<and> prev (sp_step t sz isComplete mx i p s) = last (strokePoints (sp_step t sz isComplete mx i p s))"
  using assms by (simp add: sp_step_def Let_def)

lemma sp_loop_last_point:
  assumes "strokePoints s \<noteq> []" and "prev s = last (strokePoints s)"
    and "ps \<noteq> []" and "i + length ps = mx + 1"
  shows "point (last (strokePoints (sp_loop_numbers t sz True mx i ps s))) = fst (last ps)"
  using assms
proof (induction ps arbitrary: i s)
  case Nil
  then show ?case by simp
next
  case (Cons p ps)
  show ?case
  proof (cases "ps = []")
    case True
    with Cons.prems(4) have "i = mx" by simp
    with True sp_step_last_point [OF Cons.prems(1,2), of t sz mx p] show ?thesis by simp
  next
    case False
    from sp_step_prev [OF Cons.prems(1,2), of t sz True mx i p]
    have a: "strokePoints (sp_step t sz True mx i p s) \<noteq> []"
      and b: "prev (sp_step t sz True mx i p s) = last (strokePoints (sp_step t sz True mx i p s))"
      by simp_all
    from Cons.prems(4) have "(i + 1) + length ps = mx + 1" by simp
    from Cons.IH [OF a b False this] False show ?thesis by simp
  qed
qed

text \<open>
  A pass through the loop either pushes nothing and leaves \<^verbatim>\<open>prev\<close> as it is, or pushes
  one stroke point, which becomes \<^verbatim>\<open>prev\<close>; its pressure and position come from \<open>pts[i]\<close>.
\<close>

lemma sp_step_cases:
  "(strokePoints (sp_step t sz c mx i p s) = strokePoints s
      \<and> prev (sp_step t sz c mx i p s) = prev s)
   \<or> (\<exists>x. strokePoints (sp_step t sz c mx i p s) = strokePoints s @ [x]
          \<and> prev (sp_step t sz c mx i p s) = x
          \<and> pressure x = pressure_or 0.5 (snd p)
          \<and> point x = (if c \<and> i = mx then fst p else lrp (point (prev s)) (fst p) t))"
  by (simp add: sp_step_def Let_def)

lemma sp_loop_emitted:
  assumes "drop i pts = ps"
  shows "\<exists>new. strokePoints (sp_loop_numbers t sz c mx i ps s) = strokePoints s @ new
     \<and> map pressure new
         = map (\<lambda>j. pressure_or 0.5 (snd (pts ! j))) (sp_emitted t sz c mx i ps s)
     \<and> map point new
         = map (\<lambda>(q, j). if c \<and> j = mx then fst (pts ! j) else lrp q (fst (pts ! j)) t)
             (zip (point (prev s) # map point new) (sp_emitted t sz c mx i ps s))
     \<and> sorted_wrt (<) (sp_emitted t sz c mx i ps s)
     \<and> set (sp_emitted t sz c mx i ps s) \<subseteq> {i..<i + length ps}"
  using assms
proof (induction ps arbitrary: i s)
  case Nil
  then show ?case by simp
next
  case (Cons p ps)
  let ?s1 = "sp_step t sz c mx i p s"
  let ?E = "sp_emitted t sz c mx (Suc i) ps ?s1"
  let ?f = "\<lambda>(q, j). if c \<and> j = mx then fst (pts ! j) else lrp q (fst (pts ! j)) t"
  from Cons.prems have il: "i < length pts" by (cases "i < length pts") simp_all
  from Cons_nth_drop_Suc [OF il] Cons.prems
  have pi: "pts ! i = p" and dr: "drop (Suc i) pts = ps" by simp_all
  from Cons.IH [OF dr, of ?s1] obtain new where
    a: "strokePoints (sp_loop_numbers t sz c mx (Suc i) ps ?s1) = strokePoints ?s1 @ new"
    and b: "map pressure new = map (\<lambda>j. pressure_or 0.5 (snd (pts ! j))) ?E"
    and c': "map point new = map ?f (zip (point (prev ?s1) # map point new) ?E)"
    and d: "sorted_wrt (<) ?E"
    and e: "set ?E \<subseteq> {Suc i..<Suc i + length ps}"
    by blast
  from sp_step_cases [of t sz c mx i p s] show ?case
  proof (elim disjE conjE exE)
    assume same: "strokePoints ?s1 = strokePoints s" "prev ?s1 = prev s"
    have E: "sp_emitted t sz c mx i (p # ps) s = ?E" using same by simp
    have F: "sp_loop_numbers t sz c mx i (p # ps) s = sp_loop_numbers t sz c mx (Suc i) ps ?s1"
      by simp
    show ?thesis
    proof (intro exI [of _ new] conjI)
      show "strokePoints (sp_loop_numbers t sz c mx i (p # ps) s) = strokePoints s @ new"
        unfolding F a same ..
      show "map pressure new
            = map (\<lambda>j. pressure_or 0.5 (snd (pts ! j))) (sp_emitted t sz c mx i (p # ps) s)"
        unfolding E by (rule b)
      show "map point new = map ?f (zip (point (prev s) # map point new)
                                      (sp_emitted t sz c mx i (p # ps) s))"
        unfolding E using c' same by simp
      show "sorted_wrt (<) (sp_emitted t sz c mx i (p # ps) s)"
        unfolding E by (rule d)
      show "set (sp_emitted t sz c mx i (p # ps) s) \<subseteq> {i..<i + length (p # ps)}"
        unfolding E using e by auto
    qed
  next
    fix x
    assume push: "strokePoints ?s1 = strokePoints s @ [x]" "prev ?s1 = x"
      and px: "pressure x = pressure_or 0.5 (snd p)"
      and pt: "point x = (if c \<and> i = mx then fst p else lrp (point (prev s)) (fst p) t)"
    have E: "sp_emitted t sz c mx i (p # ps) s = i # ?E" using push by simp
    have F: "sp_loop_numbers t sz c mx i (p # ps) s = sp_loop_numbers t sz c mx (Suc i) ps ?s1"
      by simp
    show ?thesis
    proof (intro exI [of _ "x # new"] conjI)
      show "strokePoints (sp_loop_numbers t sz c mx i (p # ps) s) = strokePoints s @ x # new"
        unfolding F a push by simp
      show "map pressure (x # new)
            = map (\<lambda>j. pressure_or 0.5 (snd (pts ! j))) (sp_emitted t sz c mx i (p # ps) s)"
        unfolding E using b px pi by simp
      have "map point (x # new) = point x # map ?f (zip (point x # map point new) ?E)"
        using c' push by simp
      also have "\<dots> = map ?f (zip (point (prev s) # map point (x # new)) (i # ?E))"
        using pt pi by auto
      finally show "map point (x # new) = map ?f (zip (point (prev s) # map point (x # new))
                                      (sp_emitted t sz c mx i (p # ps) s))"
        unfolding E .
      show "sorted_wrt (<) (sp_emitted t sz c mx i (p # ps) s)"
        unfolding E using d e by auto
      show "set (sp_emitted t sz c mx i (p # ps) s) \<subseteq> {i..<i + length (p # ps)}"
        unfolding E using e by auto
    qed
  qed
qed


lemma sp_init_simps:
  "strokePoints (sp_init pts) \<noteq> []"
  "prev (sp_init pts) = last (strokePoints (sp_init pts))"
  "tl (strokePoints (sp_init pts)) = []"
  "pressure (hd (strokePoints (sp_init pts))) = pressure_or 0.25 (snd (pts ! 0))"
  "runningLength (hd (strokePoints (sp_init pts))) = 0"
  "distance (hd (strokePoints (sp_init pts))) = 0"
  by (simp_all add: sp_init_def Let_def)

lemma sp_init_points: "strokePoints (sp_init pts) = [prev (sp_init pts)]"
  by (simp add: sp_init_def Let_def)


lemma sp_final_hd:
  "strokePoints (sp_final points options) \<noteq> []"
  "hd (strokePoints (sp_final points options)) = hd (strokePoints (sp_init (array_points points)))"
  unfolding sp_final_def using sp_loop_hd [OF sp_init_simps(1)] by blast+

lemma sp_final_emitted:
  assumes "points \<noteq> []"
  shows "map pressure (tl (strokePoints (sp_final points options)))
           = map (\<lambda>j. pressure_or 0.5 (snd (array_points points ! j)))
               (emitted_indices points options)"
    and "map point (tl (strokePoints (sp_final points options)))
           = map (\<lambda>(q, j). if isComplete_of options \<and> j = length (array_points points) - 1
                            then fst (array_points points ! j)
                            else lrp q (fst (array_points points ! j))
                                   (0.15 + (1 - streamline_of options) * 0.85))
               (zip (map point (strokePoints (sp_final points options)))
                    (emitted_indices points options))"
    and "sorted_wrt (<) (emitted_indices points options)"
    and "set (emitted_indices points options) \<subseteq> {1..<length (array_points points)}"
proof -
  let ?pts = "array_points points"
  let ?t = "0.15 + (1 - streamline_of options) * 0.85"
  let ?f = "\<lambda>(q, j). if isComplete_of options \<and> j = length ?pts - 1 then fst (?pts ! j)
                       else lrp q (fst (?pts ! j)) ?t"
  have dr: "drop 1 ?pts = tl ?pts" by (simp add: drop_Suc)
  from array_points_length [OF assms] have len: "1 + length (tl ?pts) = length ?pts" by simp
  from sp_loop_emitted [OF dr, of ?t "size_of options" "isComplete_of options"
      "length ?pts - 1" "sp_init ?pts"]
  obtain new where
    a: "strokePoints (sp_final points options) = strokePoints (sp_init ?pts) @ new"
    and b: "map pressure new = map (\<lambda>j. pressure_or 0.5 (snd (?pts ! j)))
              (emitted_indices points options)"
    and c: "map point new = map ?f (zip (point (prev (sp_init ?pts)) # map point new)
              (emitted_indices points options))"
    and d: "sorted_wrt (<) (emitted_indices points options)"
    and e: "set (emitted_indices points options) \<subseteq> {1..<1 + length (tl ?pts)}"
    unfolding sp_final_def emitted_indices_def by blast
  from a have L: "strokePoints (sp_final points options) = prev (sp_init ?pts) # new"
    by (simp add: sp_init_points)
  show "map pressure (tl (strokePoints (sp_final points options)))
           = map (\<lambda>j. pressure_or 0.5 (snd (?pts ! j))) (emitted_indices points options)"
    unfolding L using b by simp
  show "map point (tl (strokePoints (sp_final points options)))
           = map ?f (zip (map point (strokePoints (sp_final points options)))
                    (emitted_indices points options))"
    unfolding L using c by simp
  show "sorted_wrt (<) (emitted_indices points options)" by (rule d)
  show "set (emitted_indices points options) \<subseteq> {1..<length ?pts}"
    using e unfolding len .
qed





subsection \<open>Results at concrete inputs\<close>

lemmas option_simps = size_of_def streamline_of_def isComplete_of_def dflt_def no_options_def

lemmas resample_simps = getStrokePoints_def to_arrays_def add_points_def lrp_entry_def
  first_state_def sp_step_entry_def sp_step_def Let_def pressure_or_def set_first_vector_def

lemma scenario_points:
  "getStrokePoints [ArrayPoint (0, 0) None, ArrayPoint (10, 0) None, ArrayPoint (20, 0) None]
     (no_options\<lparr>streamline_opt := Some 0.5, size_opt := Some 16, last_opt := Some True\<rparr>)
   = Inr [\<lparr>point = (0, 0), pressure = 0.25, vector = (- 1, 0), distance = 0, runningLength = 0\<rparr>,
          \<lparr>point = (20, 0), pressure = 0.5, vector = (- 1, 0), distance = 20, runningLength = 25.75\<rparr>]"
  by (simp add: resample_simps option_simps vec_simps dist_v_horizontal uni_horizontal)







lemma pressure_points:
  "getStrokePoints [ArrayPoint (0, 0) None, ArrayPoint (100, 0) (Some (- 1)),
                    ArrayPoint (200, 0) (Some 0.7)] no_options
   = Inr [\<lparr>point = (0, 0), pressure = 0.25, vector = (- 1, 0), distance = 0, runningLength = 0\<rparr>,
          \<lparr>point = (57.5, 0), pressure = 0.5, vector = (- 1, 0), distance = 57.5, runningLength = 57.5\<rparr>,
          \<lparr>point = (139.4375, 0), pressure = 0.7, vector = (- 1, 0), distance = 81.9375,
            runningLength = 139.4375\<rparr>]"
  by (simp add: resample_simps option_simps vec_simps dist_v_horizontal uni_horizontal)

lemma pressure_indices:
  "emitted_indices [ArrayPoint (0, 0) None, ArrayPoint (100, 0) (Some (- 1)),
                    ArrayPoint (200, 0) (Some 0.7)] no_options = [1, 2]"
  by (simp add: emitted_indices_def array_points_def numbers_of_def add_points_numbers_def
        sp_init_def sp_step_def Let_def pressure_or_def option_simps vec_simps
        dist_v_horizontal uni_horizontal)

subsection \<open>The claims about getStrokePoints\<close>

text \<open>
  C3. When \<^verbatim>\<open>last\<close> is true, the last stroke point has the position of the last input
  point, as it is given and not interpolated. (For an input of a single point it is the
  point that the function appends at \<open>(+1, +1)\<close>, again as it is.) This holds for every
  input that is not empty and whose points are all in one form; the function returns for
  each of them. At the input \<^verbatim>\<open>[[0,0],[10,0],[20,0]]\<close> with
  \<^verbatim>\<open>{streamline: 0.5, size: 16, last: true}\<close> this is \<open>(20, 0)\<close> (\<open>scenario_points\<close> is the
  whole result there).
\<close>

theorem last_point_verbatim:
  assumes "one_form points" and "points \<noteq> []" and "isComplete_of options"
  shows "\<exists>sps. getStrokePoints points options = Inr sps \<and> sps \<noteq> []
           \<and> point (last sps) =
               (if length points = 1 then add (position (hd points)) (1, 1)
                else position (last points))"
proof -
  let ?pts = "array_points points"
  let ?t = "0.15 + (1 - streamline_of options) * 0.85"
  let ?s = "sp_final points options"
  from array_points_length [OF assms(2)] have len: "2 \<le> length ?pts" .
  then have tlne: "tl ?pts \<noteq> []" by (cases ?pts) auto
  from len have idx: "1 + length (tl ?pts) = (length ?pts - 1) + 1" by simp
  have "point (last (strokePoints ?s)) = fst (last (tl ?pts))"
    unfolding sp_final_def using assms(3)
      sp_loop_last_point [OF sp_init_simps(1) sp_init_simps(2) tlne idx, of ?t "size_of options"]
    by simp
  also have "\<dots> = fst (last ?pts)" using tlne len by (simp add: last_tl)
  also have "\<dots> = (if length points = 1 then add (position (hd points)) (1, 1)
            else position (last points))"
  proof (cases "length points = 1")
    case True
    then have "length (numbers_of points) = 1" by (simp add: numbers_of_length)
    from add_points_numbers_last_single [OF this] True show ?thesis
      by (simp add: array_points_def numbers_of_hd [OF assms(2)])
  next
    case False
    with assms(2) have "2 \<le> length (numbers_of points)"
      by (cases points) (auto simp: numbers_of_length Suc_le_eq)
    from add_points_numbers_last [OF this] False show ?thesis
      by (simp add: array_points_def numbers_of_last [OF assms(2)])
  qed
  finally have main: "point (last (strokePoints ?s)) =
           (if length points = 1 then add (position (hd points)) (1, 1)
            else position (last points))" .
  have sne: "strokePoints ?s \<noteq> []" by (rule sp_final_hd(1))
  have "point (last (set_first_vector (strokePoints ?s))) = point (last (strokePoints ?s))"
    by (subst set_first_vector_last [OF sne]) simp
  with main sne show ?thesis
    by (simp add: getStrokePoints_one_form [OF assms(1,2)] set_first_vector_Nil)
qed

theorem last_point_verbatim_witness:
  "one_form [ArrayPoint (0, 0) None, ArrayPoint (10, 0) None, ArrayPoint (20, 0) None]
   \<and> [ArrayPoint (0, 0) None, ArrayPoint (10, 0) None, ArrayPoint (20, 0) None] \<noteq> []
   \<and> isComplete_of (no_options\<lparr>streamline_opt := Some 0.5, size_opt := Some 16, last_opt := Some True\<rparr>)
   \<and> map_sum id (\<lambda>sps. point (last sps))
        (getStrokePoints [ArrayPoint (0, 0) None, ArrayPoint (10, 0) None, ArrayPoint (20, 0) None]
           (no_options\<lparr>streamline_opt := Some 0.5, size_opt := Some 16, last_opt := Some True\<rparr>))
       = Inr (20, 0)"
proof -
  let ?P = "[ArrayPoint (0, 0) None, ArrayPoint (10, 0) None, ArrayPoint (20, 0) None]"
  let ?O = "no_options\<lparr>streamline_opt := Some 0.5, size_opt := Some 16, last_opt := Some True\<rparr>"
  have 1: "one_form ?P" by (simp add: one_form_def)
  have 2: "?P \<noteq> []" by simp
  have 3: "isComplete_of ?O" by (simp add: option_simps)
  from last_point_verbatim [OF 1 2 3] obtain sps where
    "getStrokePoints ?P ?O = Inr sps" and "point (last sps) = (20, 0)"
    by auto
  with 1 3 show ?thesis by simp
qed




text \<open>
  C7, as amended. For an input that is not empty and whose points are all in one form:
  the first stroke point has the pressure of the first input point when that is at least
  0; it has 0.25 when that pressure is negative, or is missing from a point in array form.
  When it is missing from a point in object form the first stroke point has 0.5, because
  the conversion to arrays has already put 0.5 there. Every later stroke point has the
  pressure of the point \<open>pts[j]\<close> that it was built from when that is at least 0, and 0.5
  otherwise: the stroke points after the first are, in order, those pushed in the passes
  \<open>j\<close> of \<open>emitted_indices\<close>, each at the position computed from \<open>pts[j]\<close> and the stroke point
  before it. For an input of three or more points \<open>pts[j]\<close> is the input point \<open>j\<close>; for
  two points \<open>pts[1..4]\<close> are the added points, without pressure; for one point \<open>pts[1]\<close> is
  the appended point, with the pressure of the input point. So when every input pressure
  is missing or negative, every stroke point after the first has 0.5.
\<close>

theorem pressure_defaults:
  assumes "one_form points" and "points \<noteq> []"
  shows "\<exists>sps. getStrokePoints points options = Inr sps \<and> sps \<noteq> []
       \<and> pressure (hd sps) =
           (case pressure_of (hd points) of
              Some v \<Rightarrow> if v \<ge> 0 then v else 0.25
            | None \<Rightarrow> if is_array (hd points) then 0.25 else 0.5)
       \<and> map pressure (tl sps)
           = map (\<lambda>j. pressure_or 0.5 (snd (array_points points ! j)))
               (emitted_indices points options)
       \<and> map point (tl sps)
           = map (\<lambda>(q, j). if isComplete_of options \<and> j = length (array_points points) - 1
                            then fst (array_points points ! j)
                            else lrp q (fst (array_points points ! j))
                                   (0.15 + (1 - streamline_of options) * 0.85))
               (zip (map point sps) (emitted_indices points options))
       \<and> sorted_wrt (<) (emitted_indices points options)
       \<and> set (emitted_indices points options) \<subseteq> {1..<length (array_points points)}
       \<and> (3 \<le> length points \<longrightarrow>
            length (array_points points) = length points
            \<and> (\<forall>j < length points.
                 fst (array_points points ! j) = position (points ! j)
                 \<and> pressure_or 0.5 (snd (array_points points ! j))
                     = (case pressure_of (points ! j) of
                          Some v \<Rightarrow> if v \<ge> 0 then v else 0.5 | None \<Rightarrow> 0.5)))
       \<and> (length points = 2 \<longrightarrow>
            length (array_points points) = 5
            \<and> (\<forall>j \<in> {1..<5}. pressure_or 0.5 (snd (array_points points ! j)) = 0.5))
       \<and> (length points = 1 \<longrightarrow>
            length (array_points points) = 2
            \<and> pressure_or 0.5 (snd (array_points points ! 1))
                = (case pressure_of (hd points) of
                     Some v \<Rightarrow> if v \<ge> 0 then v else 0.5 | None \<Rightarrow> 0.5))
       \<and> ((\<forall>p \<in> set points. case pressure_of p of None \<Rightarrow> True | Some v \<Rightarrow> v < 0) \<longrightarrow>
            (\<forall>x \<in> set (tl sps). pressure x = 0.5))"
proof -
  let ?pts = "array_points points"
  let ?E = "emitted_indices points options"
  define s where "s = sp_final points options"
  define sps where "sps = set_first_vector (strokePoints s)"
  have eq: "getStrokePoints points options = Inr sps"
    unfolding sps_def s_def by (rule getStrokePoints_one_form [OF assms])
  have sne: "strokePoints s \<noteq> []"
    and hd: "hd (strokePoints s) = hd (strokePoints (sp_init ?pts))"
    unfolding s_def by (rule sp_final_hd)+
  from sne have ne: "sps \<noteq> []" by (simp add: sps_def set_first_vector_Nil)
  from assms(2) have nne: "numbers_of points \<noteq> []" by (simp add: numbers_of_map)
  have "pressure (hd sps) = pressure (hd (strokePoints s))"
    unfolding sps_def by (subst set_first_vector_hd [OF sne]) simp
  also have "\<dots> = pressure_or 0.25 (snd (?pts ! 0))" by (simp add: hd sp_init_simps)
  also have "\<dots> = pressure_or 0.25 (snd (numbers_of points ! 0))"
    by (simp add: array_points_def add_points_numbers_hd [OF nne])
  also have "\<dots> = (case pressure_of (hd points) of
              Some v \<Rightarrow> if v \<ge> 0 then v else 0.25
            | None \<Rightarrow> if is_array (hd points) then 0.25 else 0.5)"
    by (rule numbers_of_first [OF assms(2)])
  finally have first: "pressure (hd sps) =
           (case pressure_of (hd points) of
              Some v \<Rightarrow> if v \<ge> 0 then v else 0.25
            | None \<Rightarrow> if is_array (hd points) then 0.25 else 0.5)" .
  have later: "map pressure (tl sps) = map (\<lambda>j. pressure_or 0.5 (snd (?pts ! j))) ?E"
    unfolding sps_def s_def set_first_vector_tl by (rule sp_final_emitted(1) [OF assms(2)])
  have built: "map point (tl sps)
           = map (\<lambda>(q, j). if isComplete_of options \<and> j = length ?pts - 1
                            then fst (?pts ! j)
                            else lrp q (fst (?pts ! j)) (0.15 + (1 - streamline_of options) * 0.85))
               (zip (map point sps) ?E)"
    unfolding sps_def s_def set_first_vector_tl set_first_vector_point
    by (rule sp_final_emitted(2) [OF assms(2)])
  have srt: "sorted_wrt (<) ?E" by (rule sp_final_emitted(3) [OF assms(2)])
  have bnd: "set ?E \<subseteq> {1..<length ?pts}" by (rule sp_final_emitted(4) [OF assms(2)])
  have many: "length ?pts = length points
            \<and> (\<forall>j < length points.
                 fst (?pts ! j) = position (points ! j)
                 \<and> pressure_or 0.5 (snd (?pts ! j))
                     = (case pressure_of (points ! j) of
                          Some v \<Rightarrow> if v \<ge> 0 then v else 0.5 | None \<Rightarrow> 0.5))"
    if "3 \<le> length points"
    unfolding array_points_many [OF that]
  proof (intro conjI allI impI)
    show "length (numbers_of points) = length points" by (rule numbers_of_length)
  next
    fix j assume "j < length points"
    then show "fst (numbers_of points ! j) = position (points ! j)"
      by (simp add: numbers_of_nth)
  next
    fix j assume "j < length points"
    then show "pressure_or 0.5 (snd (numbers_of points ! j))
                 = (case pressure_of (points ! j) of
                      Some v \<Rightarrow> if v \<ge> 0 then v else 0.5 | None \<Rightarrow> 0.5)"
      by (rule numbers_of_pressure)
  qed
  have two: "length ?pts = 5 \<and> (\<forall>j \<in> {1..<5}. pressure_or 0.5 (snd (?pts ! j)) = 0.5)"
    if "length points = 2"
  proof -
    from that have "length (numbers_of points) = 2" by (simp add: numbers_of_length)
    then obtain a b where "numbers_of points = [a, b]"
      by (auto simp: numeral_2_eq_2 length_Suc_conv)
    then have p: "?pts = [a, (lrp (fst a) (fst b) (1 / 4), None), (lrp (fst a) (fst b) (2 / 4), None),
                      (lrp (fst a) (fst b) (3 / 4), None), (fst b, None)]"
      by (simp only: array_points_def add_points_numbers_two)
    have "snd (?pts ! j) = None" if "j \<in> {1..<5}" for j :: nat
    proof -
      from that have "j = 1 \<or> j = 2 \<or> j = 3 \<or> j = 4" by auto
      then show ?thesis unfolding p by (elim disjE) simp_all
    qed
    moreover have "length ?pts = 5" unfolding p by simp
    ultimately show ?thesis by (simp add: pressure_or_def)
  qed
  have one: "length ?pts = 2
            \<and> pressure_or 0.5 (snd (?pts ! 1))
                = (case pressure_of (hd points) of
                     Some v \<Rightarrow> if v \<ge> 0 then v else 0.5 | None \<Rightarrow> 0.5)"
    if "length points = 1"
  proof -
    from that obtain p where pp: "points = [p]" by (cases points) auto
    have "numbers_of points = [numbers_of points ! 0]"
      using that by (cases "numbers_of points") (simp_all add: numbers_of_length [symmetric])
    then have "?pts = [numbers_of points ! 0,
                       (add (fst (numbers_of points ! 0)) (1, 1), snd (numbers_of points ! 0))]"
      unfolding array_points_def using add_points_numbers_one [of "numbers_of points ! 0"]
      by simp
    then have "length ?pts = 2" and "snd (?pts ! 1) = snd (numbers_of points ! 0)"
      by simp_all
    moreover have "pressure_or 0.5 (snd (numbers_of points ! 0))
        = (case pressure_of (points ! 0) of Some v \<Rightarrow> if v \<ge> 0 then v else 0.5 | None \<Rightarrow> 0.5)"
      by (rule numbers_of_pressure) (simp add: that)
    ultimately show ?thesis using pp by simp
  qed
  have dflt: "\<forall>x \<in> set (tl sps). pressure x = 0.5"
    if un: "\<forall>p \<in> set points. case pressure_of p of None \<Rightarrow> True | Some v \<Rightarrow> v < 0"
  proof
    fix x assume "x \<in> set (tl sps)"
    then have "pressure x \<in> set (map pressure (tl sps))" by simp
    then obtain j where j: "j \<in> set ?E" and px: "pressure x = pressure_or 0.5 (snd (?pts ! j))"
      unfolding later by auto
    from j bnd have "j < length ?pts" by auto
    then have "?pts ! j \<in> set (add_points_numbers (numbers_of points))"
      by (simp add: array_points_def)
    from add_points_numbers_snd [OF this]
    consider "snd (?pts ! j) = None"
      | q where "q \<in> set (numbers_of points)" "snd (?pts ! j) = snd q"
      by auto
    then show "pressure x = 0.5"
    proof cases
      case 1
      with px show ?thesis by (simp add: pressure_or_def)
    next
      case (2 q)
      with px numbers_of_snd [OF 2(1) un] show ?thesis by simp
    qed
  qed
  show ?thesis
  proof (intro exI [of _ sps] conjI impI)
    show "getStrokePoints points options = Inr sps" by (rule eq)
    show "sps \<noteq> []" by (rule ne)
    show "pressure (hd sps) =
           (case pressure_of (hd points) of
              Some v \<Rightarrow> if v \<ge> 0 then v else 0.25
            | None \<Rightarrow> if is_array (hd points) then 0.25 else 0.5)" by (rule first)
    show "map pressure (tl sps) = map (\<lambda>j. pressure_or 0.5 (snd (?pts ! j))) ?E" by (rule later)
    show "map point (tl sps)
           = map (\<lambda>(q, j). if isComplete_of options \<and> j = length ?pts - 1
                            then fst (?pts ! j)
                            else lrp q (fst (?pts ! j)) (0.15 + (1 - streamline_of options) * 0.85))
               (zip (map point sps) ?E)" by (rule built)
    show "sorted_wrt (<) ?E" by (rule srt)
    show "set ?E \<subseteq> {1..<length ?pts}" by (rule bnd)
  next
    assume "3 \<le> length points"
    from many [OF this] show "length ?pts = length points" by blast
  next
    assume "3 \<le> length points"
    from many [OF this] show "\<forall>j < length points.
                 fst (?pts ! j) = position (points ! j)
                 \<and> pressure_or 0.5 (snd (?pts ! j))
                     = (case pressure_of (points ! j) of
                          Some v \<Rightarrow> if v \<ge> 0 then v else 0.5 | None \<Rightarrow> 0.5)" by blast
  next
    assume "length points = 2"
    from two [OF this] show "length ?pts = 5" by blast
  next
    assume "length points = 2"
    from two [OF this] show "\<forall>j \<in> {1..<5}. pressure_or 0.5 (snd (?pts ! j)) = 0.5" by blast
  next
    assume "length points = 1"
    from one [OF this] show "length ?pts = 2" by blast
  next
    assume "length points = 1"
    from one [OF this] show "pressure_or 0.5 (snd (?pts ! 1))
                = (case pressure_of (hd points) of
                     Some v \<Rightarrow> if v \<ge> 0 then v else 0.5 | None \<Rightarrow> 0.5)" by blast
  next
    assume "\<forall>p \<in> set points. case pressure_of p of None \<Rightarrow> True | Some v \<Rightarrow> v < 0"
    then show "\<forall>x \<in> set (tl sps). pressure x = 0.5" by (rule dflt)
  qed
qed

theorem pressure_defaults_witness:
  "one_form [ArrayPoint (0, 0) None, ArrayPoint (100, 0) (Some (- 1)), ArrayPoint (200, 0) (Some 0.7)]
   \<and> [ArrayPoint (0, 0) None, ArrayPoint (100, 0) (Some (- 1)), ArrayPoint (200, 0) (Some 0.7)] \<noteq> []
   \<and> emitted_indices
        [ArrayPoint (0, 0) None, ArrayPoint (100, 0) (Some (- 1)), ArrayPoint (200, 0) (Some 0.7)]
        no_options = [1, 2]
   \<and> map_sum id (map pressure)
        (getStrokePoints
           [ArrayPoint (0, 0) None, ArrayPoint (100, 0) (Some (- 1)), ArrayPoint (200, 0) (Some 0.7)]
           no_options) = Inr [0.25, 0.5, 0.7]"
proof -
  let ?P = "[ArrayPoint (0, 0) None, ArrayPoint (100, 0) (Some (- 1)), ArrayPoint (200, 0) (Some 0.7)]"
  have 1: "one_form ?P" by (simp add: one_form_def)
  have 2: "?P \<noteq> []" by simp
  have 3: "array_points ?P = [((0, 0), None), ((100, 0), Some (- 1)), ((200, 0), Some 0.7)]"
    by (simp add: array_points_def numbers_of_def add_points_numbers_def)
  from pressure_defaults [OF 1 2, of no_options] obtain sps where
    r: "getStrokePoints ?P no_options = Inr sps" and ne: "sps \<noteq> []"
    and a: "pressure (hd sps) = 0.25"
    and b: "map pressure (tl sps) = map (\<lambda>j. pressure_or 0.5 (snd (array_points ?P ! j)))
              (emitted_indices ?P no_options)"
    by auto
  from b have "map pressure (tl sps) = [0.5, 0.7]"
    unfolding pressure_indices 3 by (simp add: pressure_or_def)
  with a ne have "map pressure sps = [0.25, 0.5, 0.7]" by (cases sps) simp_all
  with 1 r show ?thesis by (simp add: pressure_indices)
qed

theorem pressure_defaults_counterexample:
  "map_sum id (\<lambda>sps. pressure (hd sps)) (getStrokePoints [ObjectPoint (0, 0) None] no_options)
     = Inr 0.5
   \<and> map_sum id (\<lambda>sps. pressure (hd sps)) (getStrokePoints [ObjectPoint (0, 0) None] no_options)
     \<noteq> Inr 0.25"
  by (simp add: resample_simps option_simps vec_simps)

section \<open>Properties of getStrokeOutlinePoints\<close>

declare t_upto.simps [simp del]



lemmas taper_simps = taperStart_of_def taperEnd_of_def taperStartEase_of_def taperEndEase_of_def
  start_of_def end_of_def capStart_of_def capEnd_of_def no_taper_options_def

lemmas outline_option_simps = size_of_def thinning_of_def smoothing_of_def simulatePressure_of_def
  easing_of_def isComplete_of_def dflt_def no_options_def

subsection \<open>Nothing is thrown\<close>












subsection \<open>Strokes of one stroke point and short strokes\<close>

lemma getStrokeOutlinePoints_unfold:
  assumes "points \<noteq> []" and "0 < size_of options"
  shows "getStrokeOutlinePoints points options =
         (case ol_loop options (length points) (runningLength (points ! (length points - 1)))
                 ((size_of options * smoothing_of options) ^ 2) 0 points (ol_init points options) of
            Inl e \<Rightarrow> Inl e
          | Inr s \<Rightarrow> draw_caps points options s)"
  using assms by (simp add: getStrokeOutlinePoints_def ol_init_def Let_def)

lemma ol_loop_single:
  "ol_loop options (Suc 0) totalLength minDistance 0 [p] s =
   Inr (last_point p (apply_tapering options totalLength p (calculate_radius options p s)))"
  by (simp add: ol_step_def Let_def)

lemma single_outline:
  assumes "0 < size_of options"
  shows "getStrokeOutlinePoints [p] options =
         draw_caps [p] options
           (last_point p (apply_tapering options (runningLength p) p
              (calculate_radius options p (ol_init [p] options))))"
  using assms by (simp add: getStrokeOutlinePoints_unfold ol_loop_single del: ol_loop.simps)

lemma single_state:
  "leftPts (last_point p (apply_tapering options tlen p (calculate_radius options p (ol_init [p] options))))
     = [sub (point p) (mul (per (vector p))
          (radius (apply_tapering options tlen p (calculate_radius options p (ol_init [p] options)))))]"
  "rightPts (last_point p (apply_tapering options tlen p (calculate_radius options p (ol_init [p] options))))
     = [add (point p) (mul (per (vector p))
          (radius (apply_tapering options tlen p (calculate_radius options p (ol_init [p] options)))))]"
  "radius (last_point p s) = radius s"
  "firstRadius (last_point p (apply_tapering options tlen p s)) = firstRadius s"
  "firstRadius (calculate_radius options p (ol_init [p] options))
     = Some (radius (calculate_radius options p (ol_init [p] options)))"
  by (simp_all add: last_point_def apply_tapering_def calculate_radius_def ol_init_def Let_def)

lemma single_radius:
  "radius (calculate_radius options p (ol_init [p] options)) =
     (if thinning_of options \<noteq> 0
      then getStrokeRadius (size_of options) (thinning_of options)
             (if simulatePressure_of options
              then simulate (size_of options) (distance p) (initial_pressure [p] options)
              else pressure p)
             (Some (easing_of options))
      else size_of options / 2)"
  by (simp add: calculate_radius_def point_pressure_def ol_init_def Let_def split: option.splits)

lemma single_tapered_radius:
  "radius (apply_tapering options (runningLength p) p s) =
     max 0.01 (radius s *
       min (if runningLength p < taperStart_of options
            then taperStartEase_of options (runningLength p / taperStart_of options) else 1)
           (if 0 < taperEnd_of options then taperEndEase_of options 0 else 1))"
  by (simp add: apply_tapering_def Let_def)




text \<open>
  C9, as amended. When \<open>getStrokeOutlinePoints\<close> receives exactly one stroke point, \<open>size > 0\<close>,
  a taper that is not zero is set on at least one end and \<^verbatim>\<open>last\<close> is false, the output is
  exactly two points, \<open>point - per(vector) * radius\<close> and then \<open>point + per(vector) * radius\<close>,
  where \<open>radius\<close> is the radius of that point after tapering, at least 0.01. There is no
  dot and no cap.
\<close>

theorem single_point_tapered:
  assumes "0 < size_of options"
    and "taperStart_of options \<noteq> 0 \<or> taperEnd_of options \<noteq> 0"
    and "\<not> isComplete_of options"
  shows "let r0 = (if thinning_of options \<noteq> 0
                   then getStrokeRadius (size_of options) (thinning_of options)
                          (if simulatePressure_of options
                           then simulate (size_of options) (distance p) (initial_pressure [p] options)
                           else pressure p)
                          (Some (easing_of options))
                   else size_of options / 2);
             ts = (if runningLength p < taperStart_of options
                   then taperStartEase_of options (runningLength p / taperStart_of options) else 1);
             te = (if 0 < taperEnd_of options then taperEndEase_of options 0 else 1);
             r = max 0.01 (r0 * min ts te)
         in getStrokeOutlinePoints [p] options
            = Inr [sub (point p) (mul (per (vector p)) r), add (point p) (mul (per (vector p)) r)]"
proof -
  let ?s = "last_point p (apply_tapering options (runningLength p) p
              (calculate_radius options p (ol_init [p] options)))"
  have "getStrokeOutlinePoints [p] options = draw_caps [p] options ?s"
    by (rule single_outline [OF assms(1)])
  also have "\<dots> = Inr (leftPts ?s @ rev (rightPts ?s))"
    using assms(2,3) by (simp add: draw_caps_def Let_def)
  finally show ?thesis
    unfolding Let_def single_state single_tapered_radius single_radius by simp
qed


theorem single_point_tapered_witness:
  "0 < size_of (no_options\<lparr>thinning_opt := Some 0,
                  start_opt := Some (no_taper_options\<lparr>taper_opt := Some 10\<rparr>)\<rparr>)
   \<and> taperStart_of (no_options\<lparr>thinning_opt := Some 0,
                  start_opt := Some (no_taper_options\<lparr>taper_opt := Some 10\<rparr>)\<rparr>) \<noteq> 0
   \<and> \<not> isComplete_of (no_options\<lparr>thinning_opt := Some 0,
                  start_opt := Some (no_taper_options\<lparr>taper_opt := Some 10\<rparr>)\<rparr>)
   \<and> getStrokeOutlinePoints
        [\<lparr>point = (5, 5), pressure = 0.5, vector = (0, 1), distance = 0, runningLength = 0\<rparr>]
        (no_options\<lparr>thinning_opt := Some 0,
                  start_opt := Some (no_taper_options\<lparr>taper_opt := Some 10\<rparr>)\<rparr>)
       = Inr [(4.99, 5), (5.01, 5)]"
proof -
  let ?O = "no_options\<lparr>thinning_opt := Some 0,
                  start_opt := Some (no_taper_options\<lparr>taper_opt := Some 10\<rparr>)\<rparr>"
  have 1: "0 < size_of ?O" by (simp add: outline_option_simps)
  have 2: "taperStart_of ?O \<noteq> 0" by (simp add: taper_simps dflt_def)
  then have t2: "taperStart_of ?O \<noteq> 0 \<or> taperEnd_of ?O \<noteq> 0" by simp
  have 3: "\<not> isComplete_of ?O" by (simp add: outline_option_simps)
  from single_point_tapered [OF 1 t2 3,
      of "\<lparr>point = (5, 5), pressure = 0.5, vector = (0, 1), distance = 0, runningLength = 0\<rparr>"]
  have "getStrokeOutlinePoints
        [\<lparr>point = (5, 5), pressure = 0.5, vector = (0, 1), distance = 0, runningLength = 0\<rparr>] ?O
       = Inr [(4.99, 5), (5.01, 5)]"
    by (simp add: Let_def outline_option_simps taper_simps sub_def add_def mul_def per_def)
  with 1 2 3 show ?thesis by simp
qed

theorem single_point_tapered_counterexample:
  "taperStart_of (no_options\<lparr>size_opt := Some 0,
                  start_opt := Some (no_taper_options\<lparr>taper_opt := Some 10\<rparr>)\<rparr>) \<noteq> 0
   \<and> \<not> isComplete_of (no_options\<lparr>size_opt := Some 0,
                  start_opt := Some (no_taper_options\<lparr>taper_opt := Some 10\<rparr>)\<rparr>)
   \<and> getStrokeOutlinePoints
        [\<lparr>point = (5, 5), pressure = 0.5, vector = (0, 1), distance = 0, runningLength = 0\<rparr>]
        (no_options\<lparr>size_opt := Some 0,
                  start_opt := Some (no_taper_options\<lparr>taper_opt := Some 10\<rparr>)\<rparr>)
       = Inr []"
  by (simp add: getStrokeOutlinePoints_def outline_option_simps taper_simps)











subsection \<open>The outline of resampled points\<close>
















subsection \<open>Pressure and thinning\<close>

lemma corner_step_rel:
  "ol_rel s s' \<Longrightarrow> ol_rel (corner_step pnt offset t s) (corner_step pnt offset t s')"
  by (simp add: ol_rel_def corner_step_def Let_def)

lemma corner_fold_rel:
  "ol_rel s s' \<Longrightarrow> ol_rel (fold (corner_step pnt offset) ts s) (fold (corner_step pnt offset) ts s')"
  by (induction ts arbitrary: s s') (simp_all add: corner_step_rel)

lemma calculate_radius_rel:
  "thinning_of options = 0 \<Longrightarrow> ol_rel s s' \<Longrightarrow>
   ol_rel (calculate_radius options p s) (calculate_radius options q s')"
  by (simp add: ol_rel_def calculate_radius_def Let_def split: option.splits)

lemma apply_tapering_rel:
  "same_but_pressure p q \<Longrightarrow> ol_rel s s' \<Longrightarrow>
   ol_rel (apply_tapering options totalLength p s) (apply_tapering options totalLength q s')"
  by (simp add: ol_rel_def apply_tapering_def same_but_pressure_def Let_def)

lemma last_point_rel:
  "same_but_pressure p q \<Longrightarrow> ol_rel s s' \<Longrightarrow> ol_rel (last_point p s) (last_point q s')"
  by (simp add: ol_rel_def last_point_def same_but_pressure_def Let_def)

lemma sharp_corner_rel:
  assumes "same_but_pressure p q" and "ol_rel s s'"
  shows "ol_rel (sharp_corner p s) (sharp_corner q s')"
proof -
  from assms have eq: "point q = point p" "prevVector s' = prevVector s" "radius s' = radius s"
    by (simp_all add: same_but_pressure_def ol_rel_def)
  have "ol_rel (fold (corner_step (point p) (mul (per (prevVector s)) (radius s))) (t_upto 0) s)
               (fold (corner_step (point p) (mul (per (prevVector s)) (radius s))) (t_upto 0) s')"
    by (rule corner_fold_rel [OF assms(2)])
  then show ?thesis
    by (simp add: sharp_corner_def Let_def eq) (simp add: ol_rel_def)
qed

lemma regular_point_rel:
  "same_but_pressure p q \<Longrightarrow> ol_rel s s' \<Longrightarrow>
   ol_rel (regular_point md i p nv nd s) (regular_point md i q nv nd s')"
  by (simp add: ol_rel_def regular_point_def same_but_pressure_def Let_def)

lemma ol_step_rel:
  assumes "thinning_of options = 0" and "same_but_pressure p q"
    and "list_all2 same_but_pressure rest rest'" and "ol_rel s s'"
  shows "rel_sum (=) ol_rel (ol_step options n totalLength minDistance i p rest s)
                            (ol_step options n totalLength minDistance i q rest' s')"
proof -
  have rl: "runningLength q = runningLength p" "vector q = vector p"
    using assms(2) by (simp_all add: same_but_pressure_def)
  have s1: "ol_rel (apply_tapering options totalLength p (calculate_radius options p s))
                   (apply_tapering options totalLength q (calculate_radius options q s'))"
    by (intro apply_tapering_rel calculate_radius_rel assms)
  show ?thesis
  proof (cases rest)
    case Nil
    with assms(3) have "rest' = []" by simp
    with Nil s1 assms(2) show ?thesis
      by (simp add: ol_step_def Let_def rl assms(4) last_point_rel)
  next
    case (Cons a as)
    with assms(3) obtain b bs where r': "rest' = b # bs" and ab: "same_but_pressure a b"
      by (auto simp: list_all2_Cons1)
    from ab have v: "vector b = vector a" by (simp add: same_but_pressure_def)
    have reg: "ol_rel ((regular_point minDistance i p (vector a) (dpr (vector p) (vector a))
                          (apply_tapering options totalLength p (calculate_radius options p s)))
                        \<lparr>prevPressure := x, prevVector := vector p\<rparr>)
                      ((regular_point minDistance i q (vector a) (dpr (vector p) (vector a))
                          (apply_tapering options totalLength q (calculate_radius options q s')))
                        \<lparr>prevPressure := y, prevVector := vector p\<rparr>)" for x y
      using regular_point_rel [OF assms(2) s1, of minDistance i "vector a" "dpr (vector p) (vector a)"]
      by (simp add: ol_rel_def)
    show ?thesis
      using Cons r' s1 assms(2)
      by (simp add: ol_step_def Let_def rl v assms(4) last_point_rel sharp_corner_rel reg)
  qed
qed


lemma ol_loop_rel:
  assumes "thinning_of options = 0"
  shows "list_all2 same_but_pressure ps qs \<Longrightarrow> ol_rel s s' \<Longrightarrow>
         rel_sum (=) ol_rel (ol_loop options n totalLength minDistance i ps s)
                            (ol_loop options n totalLength minDistance i qs s')"
proof (induction ps qs arbitrary: i s s' rule: list_all2_induct)
  case Nil
  then show ?case by simp
next
  case (Cons p ps q qs)
  from ol_step_rel [OF assms Cons.hyps(1,2) Cons.prems, of n totalLength minDistance i]
  show ?case
  proof (cases rule: rel_sum.cases)
    case (1 e e')
    then show ?thesis by simp
  next
    case (2 t t')
    with Cons.IH [of t t' "i + 1"] show ?thesis by simp
  qed
qed

lemma same_but_pressure_nth:
  assumes "list_all2 same_but_pressure ps qs" and "i < length ps"
  shows "point (qs ! i) = point (ps ! i)" and "vector (qs ! i) = vector (ps ! i)"
    and "runningLength (qs ! i) = runningLength (ps ! i)"
  using list_all2_nthD [OF assms] by (simp_all add: same_but_pressure_def)

lemma dot_points_rel:
  assumes "ol_rel s s'"
  shows "dot_points a b s' = dot_points a b s"
proof -
  from assms have eq: "firstRadius s' = firstRadius s" "radius s' = radius s"
    by (simp_all add: ol_rel_def)
  show ?thesis unfolding dot_points_def eq ..
qed

lemma draw_caps_rel:
  assumes "list_all2 same_but_pressure ps qs" and "ol_rel s s'" and "ps \<noteq> []"
  shows "draw_caps qs options s' = draw_caps ps options s"
proof -
  from assms(1) have len: "length qs = length ps" by (simp add: list_all2_lengthD)
  from assms(3) have i0: "0 < length ps" and il: "length ps - 1 < length ps" by simp_all
  note nth0 = same_but_pressure_nth [OF assms(1) i0]
  note nthl = same_but_pressure_nth [OF assms(1) il]
  from assms(2) have st: "leftPts s' = leftPts s" "rightPts s' = rightPts s" "radius s' = radius s"
    by (simp_all add: ol_rel_def)
  have sc: "start_cap qs options a s' = start_cap ps options a s" for a
    unfolding start_cap_def len st ..
  have ec: "end_cap qs options a s' = end_cap ps options a s" for a
    unfolding end_cap_def len st nthl ..
  show ?thesis
    unfolding draw_caps_def len nth0 nthl sc ec st dot_points_rel [OF assms(2)] ..
qed

lemma getStrokeRadius_thinning_zero:
  "getStrokeRadius sz 0 p e = getStrokeRadius sz 0 q e"
  by (simp add: getStrokeRadius_def)

text \<open>
  C10. With \<open>thinning = 0\<close> the outline does not depend on the pressures of the stroke
  points: two sequences that differ in their pressure fields only have the same outline,
  under any options with \<open>thinning = 0\<close>.
\<close>

theorem thinning_zero_ignores_pressure:
  assumes "thinning_of options = 0"
    and "list_all2 (\<lambda>p q. q = p\<lparr>pressure := pressure q\<rparr>) ps qs"
  shows "getStrokeOutlinePoints qs options = getStrokeOutlinePoints ps options"
proof (cases "ps = [] \<or> size_of options \<le> 0")
  case True
  with assms(2) show ?thesis by (auto simp: getStrokeOutlinePoints_def)
next
  case False
  then have ne: "ps \<noteq> []" and sz: "\<not> size_of options \<le> 0" by simp_all
  have same: "list_all2 same_but_pressure ps qs"
  proof (rule list_all2_mono [OF assms(2)])
    fix p q :: StrokePoint
    assume "q = p\<lparr>pressure := pressure q\<rparr>"
    then have "point q = point (p\<lparr>pressure := pressure q\<rparr>)" "vector q = vector (p\<lparr>pressure := pressure q\<rparr>)"
      "distance q = distance (p\<lparr>pressure := pressure q\<rparr>)"
      "runningLength q = runningLength (p\<lparr>pressure := pressure q\<rparr>)" by simp_all
    then show "same_but_pressure p q" by (simp add: same_but_pressure_def)
  qed
  then have len: "length qs = length ps" by (simp add: list_all2_lengthD)
  with ne have neq: "qs \<noteq> []" by auto
  from ne have i0: "0 < length ps" and il: "length ps - 1 < length ps" by simp_all
  note nth0 = same_but_pressure_nth [OF same i0]
  note nthl = same_but_pressure_nth [OF same il]
  let ?tl = "runningLength (ps ! (length ps - 1))"
  let ?md = "(size_of options * smoothing_of options) ^ 2"
  let ?s0 = "\<lambda>xs. \<lparr>leftPts = [], rightPts = [],
                  prevPressure = initial_pressure xs options,
                  radius = getStrokeRadius (size_of options) (thinning_of options)
                             (pressure (xs ! (length xs - 1))) (Some (easing_of options)),
                  firstRadius = None,
                  prevVector = vector (xs ! 0),
                  pl = point (xs ! 0), pr = point (xs ! 0),
                  tl_var = point (xs ! 0), tr_var = point (xs ! 0)\<rparr>"
  have init: "ol_rel (?s0 ps) (?s0 qs)"
    by (simp add: ol_rel_def nth0 assms(1) getStrokeRadius_def)
  have P: "getStrokeOutlinePoints ps options =
           (case ol_loop options (length ps) ?tl ?md 0 ps (?s0 ps) of
              Inl e \<Rightarrow> Inl e | Inr s \<Rightarrow> draw_caps ps options s)"
    using ne sz by (simp add: getStrokeOutlinePoints_def Let_def)
  have "getStrokeOutlinePoints qs options =
           (case ol_loop options (length qs) (runningLength (qs ! (length qs - 1))) ?md 0 qs (?s0 qs) of
              Inl e \<Rightarrow> Inl e | Inr s \<Rightarrow> draw_caps qs options s)"
    using neq sz by (simp add: getStrokeOutlinePoints_def Let_def)
  then have Q: "getStrokeOutlinePoints qs options =
           (case ol_loop options (length ps) ?tl ?md 0 qs (?s0 qs) of
              Inl e \<Rightarrow> Inl e | Inr s \<Rightarrow> draw_caps qs options s)"
    unfolding len nthl .
  from ol_loop_rel [OF assms(1) same init, of "length ps" ?tl ?md 0]
  show ?thesis
  proof (cases rule: rel_sum.cases)
    case (1 e e')
    then show ?thesis by (simp add: P Q)
  next
    case (2 t t')
    with draw_caps_rel [OF same 2(3) ne, of options] show ?thesis by (simp add: P Q)
  qed
qed


theorem thinning_zero_ignores_pressure_witness:
  "thinning_of (no_options\<lparr>thinning_opt := Some 0\<rparr>) = 0
   \<and> getStrokeOutlinePoints
         [\<lparr>point = (0, 0), pressure = 0.9, vector = (- 1, 0), distance = 0, runningLength = 0\<rparr>,
          \<lparr>point = (20, 0), pressure = 0.1, vector = (- 1, 0), distance = 20, runningLength = 20\<rparr>]
         (no_options\<lparr>thinning_opt := Some 0\<rparr>)
     = getStrokeOutlinePoints
         [\<lparr>point = (0, 0), pressure = 0.25, vector = (- 1, 0), distance = 0, runningLength = 0\<rparr>,
          \<lparr>point = (20, 0), pressure = 0.5, vector = (- 1, 0), distance = 20, runningLength = 20\<rparr>]
         (no_options\<lparr>thinning_opt := Some 0\<rparr>)"
proof -
  have 1: "thinning_of (no_options\<lparr>thinning_opt := Some 0\<rparr>) = 0"
    by (simp add: thinning_of_def dflt_def)
  have 2: "list_all2 (\<lambda>p q. q = p\<lparr>pressure := pressure q\<rparr>)
         [\<lparr>point = (0, 0), pressure = 0.25, vector = (- 1, 0), distance = 0, runningLength = 0\<rparr>,
          \<lparr>point = (20, 0), pressure = 0.5, vector = (- 1, 0), distance = 20, runningLength = 20\<rparr>]
         [\<lparr>point = (0, 0), pressure = 0.9, vector = (- 1, 0), distance = 0, runningLength = 0\<rparr>,
          \<lparr>point = (20, 0), pressure = 0.1, vector = (- 1, 0), distance = 20, runningLength = 20\<rparr>]"
    by simp
  from thinning_zero_ignores_pressure [OF 1 2] 1 show ?thesis by simp
qed

end
